theory Spec2Isabelle
  imports Main
begin

section \<open>The type surface of the wrapped library (cropper.type)\<close>

text \<open>
  The component never computes with a number: every number is handed on as it came.
  The carrier of JavaScript's numbers is therefore a type parameter \<open>'n\<close>.
  An optional field (\<open>y?: number\<close>) is an \<open>option\<close>: \<open>None\<close> is JavaScript's
  \<open>undefined\<close>.
\<close>

text \<open>
  An optional argument of a call is either left out of the argument list or written in
  it, and what is written may be \<open>undefined\<close>. The two are different calls (the second
  has one argument more), though the parameter reads \<open>undefined\<close> in both.
\<close>

datatype 'a Optional = Omitted | Passed "'a option"

fun read_param :: "'a Optional \<Rightarrow> 'a option" where
  "read_param Omitted = None"
| "read_param (Passed v) = v"

datatype DragMode = DragMode_crop | DragMode_move | DragMode_none

datatype ImageSmoothingQuality = Quality_low | Quality_medium | Quality_high

record 'n Data =
  Data_x :: 'n
  Data_y :: 'n
  Data_width :: 'n
  Data_height :: 'n
  Data_rotate :: 'n
  Data_scaleX :: 'n
  Data_scaleY :: 'n

record 'n ContainerData =
  ContainerData_width :: 'n
  ContainerData_height :: 'n

record 'n ImageData =
  ImageData_left :: 'n
  ImageData_top :: 'n
  ImageData_width :: 'n
  ImageData_height :: 'n
  ImageData_rotate :: 'n
  ImageData_scaleX :: 'n
  ImageData_scaleY :: 'n
  ImageData_naturalWidth :: 'n
  ImageData_naturalHeight :: 'n
  ImageData_aspectRatio :: 'n

record 'n CanvasData =
  CanvasData_left :: 'n
  CanvasData_top :: 'n
  CanvasData_width :: 'n
  CanvasData_height :: 'n
  CanvasData_naturalWidth :: 'n
  CanvasData_naturalHeight :: 'n

record 'n CropBoxData =
  CropBoxData_left :: 'n
  CropBoxData_top :: 'n
  CropBoxData_width :: 'n
  CropBoxData_height :: 'n

record 'n GetCroppedCanvasOptions =
  gcc_width :: "'n option"
  gcc_height :: "'n option"
  gcc_minWidth :: "'n option"
  gcc_minHeight :: "'n option"
  gcc_maxWidth :: "'n option"
  gcc_maxHeight :: "'n option"
  gcc_rounded :: "bool option"
  gcc_fillColor :: "string option"
  gcc_imageSmoothingEnabled :: "bool option"
  gcc_imageSmoothingQuality :: "ImageSmoothingQuality option"

record 'n SetDataOptions =
  sd_x :: "'n option"
  sd_y :: "'n option"
  sd_width :: "'n option"
  sd_height :: "'n option"
  sd_rotate :: "'n option"
  sd_scaleX :: "'n option"
  sd_scaleY :: "'n option"

record 'n SetCanvasDataOptions =
  scd_left :: "'n option"
  scd_top :: "'n option"
  scd_width :: "'n option"
  scd_height :: "'n option"

record 'n SetCropBoxDataOptions =
  scb_left :: "'n option"
  scb_top :: "'n option"
  scb_width :: "'n option"
  scb_height :: "'n option"

record 'n Pivot =
  Pivot_x :: 'n
  Pivot_y :: 'n

text \<open>The keys of the interface \<open>Options\<close>, in the order of their declaration.\<close>

datatype OptionKey =
    aspectRatio_key | autoCrop_key | autoCropArea_key | background_key | center_key
  | checkCrossOrigin_key | checkOrientation_key | cropBoxMovable_key | cropBoxResizable_key
  | data_key | dragMode_key | guides_key | highlight_key | initialAspectRatio_key
  | minCanvasHeight_key | minCanvasWidth_key | minContainerHeight_key
  | minContainerWidth_key | minCropBoxHeight_key | minCropBoxWidth_key | modal_key
  | movable_key | preview_key | responsive_key | restore_key | rotatable_key | scalable_key
  | toggleDragModeOnDblclick_key | viewMode_key | wheelZoomRatio_key | zoomOnTouch_key
  | zoomOnWheel_key | zoomable_key
  | ready_key | crop_key | cropend_key | cropmove_key | cropstart_key | zoom_key

text \<open>
  The methods of the interface \<open>Cropper\<close>, each with the arguments of its signature;
  a value of this type is one call on the underlying instance.
\<close>

datatype 'n CropperCall =
    Cropper_clear
  | Cropper_crop
  | Cropper_destroy
  | Cropper_disable
  | Cropper_enable
  | Cropper_getCanvasData
  | Cropper_getContainerData
  | Cropper_getCropBoxData
  | Cropper_getCroppedCanvas "'n GetCroppedCanvasOptions Optional"
  | Cropper_getData "bool Optional"
  | Cropper_getImageData
  | Cropper_move 'n "'n Optional"
  | Cropper_moveTo 'n "'n Optional"
  | Cropper_replace string "bool Optional"
  | Cropper_reset
  | Cropper_rotate 'n
  | Cropper_rotateTo 'n
  | Cropper_scale 'n "'n Optional"
  | Cropper_scaleX 'n
  | Cropper_scaleY 'n
  | Cropper_setAspectRatio 'n
  | Cropper_setCanvasData "'n SetCanvasDataOptions"
  | Cropper_setCropBoxData "'n SetCropBoxDataOptions"
  | Cropper_setData "'n SetDataOptions"
  | Cropper_setDragMode DragMode
  | Cropper_zoom 'n
  | Cropper_zoomTo 'n "'n Pivot Optional"

section \<open>The component (cropper.vue)\<close>

subsection \<open>Props and emitted events\<close>

text \<open>
  A style object (\<open>CSSProperties\<close>): its own properties in the order of their insertion,
  each under the key as the host wrote it (\<open>max-width\<close> and \<open>maxWidth\<close> are two keys),
  with a string or a number, or \<open>undefined\<close>, as its value. No key occurs twice in an
  object.
\<close>

datatype 'n CSSValue = CSS_string string | CSS_number 'n

type_synonym 'n CSSProperties = "(string \<times> 'n CSSValue option) list"

datatype Crossorigin = Crossorigin_anonymous | Crossorigin_use_credentials | Crossorigin_empty

text \<open>
  \<open>ImageCutEditorProps\<close>. \<open>src\<close> and \<open>alt\<close> are options because the destructuring of
  \<open>defineProps\<close> gives them defaults; \<open>crossorigin\<close> and \<open>aspectRatio\<close> because their
  types admit \<open>undefined\<close>.
\<close>

record 'n ImageCutEditorProps =
  containerStyle :: "'n CSSProperties"
  src :: "string option"
  alt :: "string option"
  imgStyle :: "'n CSSProperties"
  crossorigin :: "Crossorigin option"
  aspectRatio :: "'n option"

text \<open>The events of \<open>defineEmits\<close>: \<open>result\<close> carries a string, the others nothing.\<close>

datatype Emitted =
    Emit_result string | Emit_ready | Emit_start | Emit_move | Emit_end | Emit_crop | Emit_zoom

text \<open>\<open>emit\<close> hands one event to the host: the events handed over so far grow by it.\<close>

definition emit :: "Emitted \<Rightarrow> Emitted list \<Rightarrow> Emitted list" where
  "emit e out = out @ [e]"

subsection \<open>The options object of the constructor call\<close>

text \<open>
  A value of the options object: a number that may be undefined, or a callback. A callback
  gets the library's event \<open>'ev\<close> and acts on the events handed to the host.
\<close>

datatype ('n, 'ev) OptionValue =
    NumberValue "'n option"
  | Callback "'ev \<Rightarrow> Emitted list \<Rightarrow> Emitted list"

type_synonym ('n, 'ev) Options = "(OptionKey \<times> ('n, 'ev) OptionValue) list"

text \<open>The object literal of \<open>onMounted\<close>, key by key.\<close>

definition mount_options :: "'n ImageCutEditorProps \<Rightarrow> ('n, 'ev) Options" where
  "mount_options p =
     [(aspectRatio_key, NumberValue (aspectRatio p)),
      (ready_key, Callback (\<lambda>_. emit Emit_ready)),
      (cropstart_key, Callback (\<lambda>_. emit Emit_start)),
      (cropmove_key, Callback (\<lambda>_. emit Emit_move)),
      (cropend_key, Callback (\<lambda>_. emit Emit_end)),
      (crop_key, Callback (\<lambda>_. emit Emit_crop)),
      (zoom_key, Callback (\<lambda>_. emit Emit_zoom))]"

fun is_callback :: "('n, 'ev) OptionValue \<Rightarrow> bool" where
  "is_callback (Callback _) = True"
| "is_callback (NumberValue _) = False"

definition callback_keys :: "('n, 'ev) Options \<Rightarrow> OptionKey list" where
  "callback_keys opts = map fst (filter (\<lambda>kv. is_callback (snd kv)) opts)"

subsection \<open>The underlying library, a black box\<close>

text \<open>
  The library \<open>cropperjs\<close> is not part of the repository: it is a parameter. \<open>create\<close> is
  its constructor, giving the internal state \<open>'l\<close> of the new instance; \<open>perform\<close> is one
  method call on an instance: it changes the internal state and either raises a fault
  \<open>'x\<close> of the library's own or returns a value, \<open>None\<close> for \<open>undefined\<close>.
\<close>

type_synonym HTMLImageElement = nat

record ('n, 'ev, 'l, 'v, 'x) Library =
  create :: "HTMLImageElement \<Rightarrow> ('n, 'ev) Options \<Rightarrow> 'l"
  perform :: "'n CropperCall \<Rightarrow> 'l \<Rightarrow> ('x + 'v option) \<times> 'l"

text \<open>An instance: the element and the options it was constructed with, and its state.\<close>

record ('n, 'ev, 'l) CropperJs =
  element :: HTMLImageElement
  options :: "('n, 'ev) Options"
  internal :: 'l

text \<open>What the component did to the library, in order.\<close>

datatype 'n Interaction = Constructed HTMLImageElement | Invoked "'n CropperCall"

fun is_Constructed :: "'n Interaction \<Rightarrow> bool" where
  "is_Constructed (Constructed _) = True"
| "is_Constructed (Invoked _) = False"

subsection \<open>The component's state\<close>

text \<open>
  The two refs of the script, the events handed to the host so far, and the trace of
  the component's calls into the library.
\<close>

record ('n, 'ev, 'l) Component =
  imageRef :: "HTMLImageElement option"
  cropper :: "('n, 'ev, 'l) CropperJs option"
  emitted :: "Emitted list"
  trace :: "'n Interaction list"

text \<open>The state when the script has run and nothing is rendered yet.\<close>

definition initial :: "('n, 'ev, 'l) Component" where
  "initial = \<lparr>imageRef = None, cropper = None, emitted = [], trace = []\<rparr>"

text \<open>The hook of \<open>onMounted\<close>: construct when the image ref is set.\<close>

definition onMounted ::
  "('n, 'ev, 'l, 'v, 'x) Library \<Rightarrow> 'n ImageCutEditorProps \<Rightarrow>
   ('n, 'ev, 'l) Component \<Rightarrow> ('n, 'ev, 'l) Component" where
  "onMounted L p s =
     (case imageRef s of
        None \<Rightarrow> s
      | Some el \<Rightarrow>
          s\<lparr>cropper :=
               Some \<lparr>element = el, options = mount_options p,
                     internal = create L el (mount_options p)\<rparr>,
            trace := trace s @ [Constructed el]\<rparr>)"

subsection \<open>Forwarding\<close>

text \<open>
  A call of the host either raises or returns a value. \<open>TypeError\<close> is what JavaScript
  raises on reading a property of \<open>undefined\<close>; a fault of the library passes through.
\<close>

datatype 'x Raised = TypeError | LibraryFault 'x

type_synonym ('v, 'x) Completion = "'x Raised + 'v option"

text \<open>The call \<open>c\<close> on the live instance \<open>i\<close>: what it returns or raises is the result.\<close>

definition forward ::
  "('n, 'ev, 'l, 'v, 'x) Library \<Rightarrow> 'n CropperCall \<Rightarrow> ('n, 'ev, 'l) CropperJs \<Rightarrow>
   ('n, 'ev, 'l) Component \<Rightarrow> ('v, 'x) Completion \<times> ('n, 'ev, 'l) Component" where
  "forward L c i s =
     (case perform L c (internal i) of
        (r, l') \<Rightarrow>
          ((case r of Inl x \<Rightarrow> Inl (LibraryFault x) | Inr v \<Rightarrow> Inr v),
           s\<lparr>cropper := Some (i\<lparr>internal := l'\<rparr>), trace := trace s @ [Invoked c]\<rparr>))"

text \<open>\<open>cropper.value?.m(...)\<close>: undefined when there is no instance.\<close>

definition optional_chain ::
  "('n, 'ev, 'l, 'v, 'x) Library \<Rightarrow> 'n CropperCall \<Rightarrow>
   ('n, 'ev, 'l) Component \<Rightarrow> ('v, 'x) Completion \<times> ('n, 'ev, 'l) Component" where
  "optional_chain L c s =
     (case cropper s of None \<Rightarrow> (Inr None, s) | Some i \<Rightarrow> forward L c i s)"

text \<open>
  \<open>cropper.value!.m(...)\<close>: the assertion is erased by the compiler, and the property
  read on \<open>undefined\<close> raises.
\<close>

definition non_null ::
  "('n, 'ev, 'l, 'v, 'x) Library \<Rightarrow> 'n CropperCall \<Rightarrow>
   ('n, 'ev, 'l) Component \<Rightarrow> ('v, 'x) Completion \<times> ('n, 'ev, 'l) Component" where
  "non_null L c s =
     (case cropper s of None \<Rightarrow> (Inl TypeError, s) | Some i \<Rightarrow> forward L c i s)"

text \<open>
  A parameter with a default: the default stands in for \<open>undefined\<close>, whether the
  argument was left out or written as \<open>undefined\<close>.
\<close>

definition default_to :: "'a \<Rightarrow> 'a option \<Rightarrow> 'a" where
  "default_to d a = (case a of None \<Rightarrow> d | Some v \<Rightarrow> v)"

definition empty_options :: "'n GetCroppedCanvasOptions" where
  "empty_options =
     \<lparr>gcc_width = None, gcc_height = None, gcc_minWidth = None, gcc_minHeight = None,
      gcc_maxWidth = None, gcc_maxHeight = None, gcc_rounded = None, gcc_fillColor = None,
      gcc_imageSmoothingEnabled = None, gcc_imageSmoothingQuality = None\<rparr>"

type_synonym ('n, 'ev, 'l, 'v, 'x) Method =
  "('n, 'ev, 'l) Component \<Rightarrow> ('v, 'x) Completion \<times> ('n, 'ev, 'l) Component"

subsection \<open>The methods of the script, in its order\<close>

definition reset :: "('n, 'ev, 'l, 'v, 'x) Library \<Rightarrow> ('n, 'ev, 'l, 'v, 'x) Method" where
  "reset L s = optional_chain L Cropper_reset s"

definition clear :: "('n, 'ev, 'l, 'v, 'x) Library \<Rightarrow> ('n, 'ev, 'l, 'v, 'x) Method" where
  "clear L s = optional_chain L Cropper_clear s"

definition initCrop :: "('n, 'ev, 'l, 'v, 'x) Library \<Rightarrow> ('n, 'ev, 'l, 'v, 'x) Method" where
  "initCrop L s = optional_chain L Cropper_crop s"

definition replace ::
  "('n, 'ev, 'l, 'v, 'x) Library \<Rightarrow> string \<Rightarrow> bool Optional \<Rightarrow>
   ('n, 'ev, 'l, 'v, 'x) Method" where
  "replace L url onlyColorChanged s =
     optional_chain L
       (Cropper_replace url (Passed (Some (default_to False (read_param onlyColorChanged))))) s"

definition enable :: "('n, 'ev, 'l, 'v, 'x) Library \<Rightarrow> ('n, 'ev, 'l, 'v, 'x) Method" where
  "enable L s = optional_chain L Cropper_enable s"

definition disable :: "('n, 'ev, 'l, 'v, 'x) Library \<Rightarrow> ('n, 'ev, 'l, 'v, 'x) Method" where
  "disable L s = optional_chain L Cropper_disable s"

definition destroy :: "('n, 'ev, 'l, 'v, 'x) Library \<Rightarrow> ('n, 'ev, 'l, 'v, 'x) Method" where
  "destroy L s = optional_chain L Cropper_destroy s"

definition move ::
  "('n, 'ev, 'l, 'v, 'x) Library \<Rightarrow> 'n \<Rightarrow> 'n Optional \<Rightarrow> ('n, 'ev, 'l, 'v, 'x) Method" where
  "move L offsetX offsetY s = non_null L (Cropper_move offsetX (Passed (read_param offsetY))) s"

definition moveTo ::
  "('n, 'ev, 'l, 'v, 'x) Library \<Rightarrow> 'n \<Rightarrow> 'n Optional \<Rightarrow> ('n, 'ev, 'l, 'v, 'x) Method" where
  "moveTo L x y s =
     optional_chain L (Cropper_moveTo x (Passed (Some (default_to x (read_param y))))) s"

definition zoom :: "('n, 'ev, 'l, 'v, 'x) Library \<Rightarrow> 'n \<Rightarrow> ('n, 'ev, 'l, 'v, 'x) Method" where
  "zoom L ratio s = optional_chain L (Cropper_zoom ratio) s"

definition zoomTo ::
  "('n, 'ev, 'l, 'v, 'x) Library \<Rightarrow> 'n \<Rightarrow> 'n Pivot Optional \<Rightarrow>
   ('n, 'ev, 'l, 'v, 'x) Method" where
  "zoomTo L ratio originalEvent s =
     optional_chain L (Cropper_zoomTo ratio (Passed (read_param originalEvent))) s"

text \<open>The script's \<open>rotate\<close>; the name is taken by a function on lists.\<close>

definition rotate_by :: "('n, 'ev, 'l, 'v, 'x) Library \<Rightarrow> 'n \<Rightarrow> ('n, 'ev, 'l, 'v, 'x) Method" where
  "rotate_by L degree s = optional_chain L (Cropper_rotate degree) s"

definition rotateTo :: "('n, 'ev, 'l, 'v, 'x) Library \<Rightarrow> 'n \<Rightarrow> ('n, 'ev, 'l, 'v, 'x) Method" where
  "rotateTo L degree s = optional_chain L (Cropper_rotateTo degree) s"

definition scaleX :: "('n, 'ev, 'l, 'v, 'x) Library \<Rightarrow> 'n \<Rightarrow> ('n, 'ev, 'l, 'v, 'x) Method" where
  "scaleX L sx s = optional_chain L (Cropper_scaleX sx) s"

definition scaleY :: "('n, 'ev, 'l, 'v, 'x) Library \<Rightarrow> 'n \<Rightarrow> ('n, 'ev, 'l, 'v, 'x) Method" where
  "scaleY L sy s = optional_chain L (Cropper_scaleY sy) s"

definition scale ::
  "('n, 'ev, 'l, 'v, 'x) Library \<Rightarrow> 'n \<Rightarrow> 'n Optional \<Rightarrow> ('n, 'ev, 'l, 'v, 'x) Method" where
  "scale L sx sy s =
     optional_chain L (Cropper_scale sx (Passed (Some (default_to sx (read_param sy))))) s"

definition getData ::
  "('n, 'ev, 'l, 'v, 'x) Library \<Rightarrow> bool Optional \<Rightarrow> ('n, 'ev, 'l, 'v, 'x) Method" where
  "getData L rounded s =
     optional_chain L (Cropper_getData (Passed (Some (default_to False (read_param rounded))))) s"

definition setData ::
  "('n, 'ev, 'l, 'v, 'x) Library \<Rightarrow> 'n SetDataOptions \<Rightarrow> ('n, 'ev, 'l, 'v, 'x) Method" where
  "setData L d s = non_null L (Cropper_setData d) s"

definition getContainerData ::
  "('n, 'ev, 'l, 'v, 'x) Library \<Rightarrow> ('n, 'ev, 'l, 'v, 'x) Method" where
  "getContainerData L s = optional_chain L Cropper_getContainerData s"

definition getImageData :: "('n, 'ev, 'l, 'v, 'x) Library \<Rightarrow> ('n, 'ev, 'l, 'v, 'x) Method" where
  "getImageData L s = optional_chain L Cropper_getImageData s"

definition getCanvasData :: "('n, 'ev, 'l, 'v, 'x) Library \<Rightarrow> ('n, 'ev, 'l, 'v, 'x) Method" where
  "getCanvasData L s = optional_chain L Cropper_getCanvasData s"

definition setCanvasData ::
  "('n, 'ev, 'l, 'v, 'x) Library \<Rightarrow> 'n SetCanvasDataOptions \<Rightarrow> ('n, 'ev, 'l, 'v, 'x) Method" where
  "setCanvasData L d s = non_null L (Cropper_setCanvasData d) s"

definition getCropBoxData :: "('n, 'ev, 'l, 'v, 'x) Library \<Rightarrow> ('n, 'ev, 'l, 'v, 'x) Method" where
  "getCropBoxData L s = optional_chain L Cropper_getCropBoxData s"

definition setCropBoxData ::
  "('n, 'ev, 'l, 'v, 'x) Library \<Rightarrow> 'n SetCropBoxDataOptions \<Rightarrow> ('n, 'ev, 'l, 'v, 'x) Method" where
  "setCropBoxData L d s = non_null L (Cropper_setCropBoxData d) s"

definition getCroppedCanvas ::
  "('n, 'ev, 'l, 'v, 'x) Library \<Rightarrow> 'n GetCroppedCanvasOptions Optional \<Rightarrow>
   ('n, 'ev, 'l, 'v, 'x) Method" where
  "getCroppedCanvas L opts s =
     non_null L
       (Cropper_getCroppedCanvas (Passed (Some (default_to empty_options (read_param opts))))) s"

definition setAspectRatio ::
  "('n, 'ev, 'l, 'v, 'x) Library \<Rightarrow> 'n \<Rightarrow> ('n, 'ev, 'l, 'v, 'x) Method" where
  "setAspectRatio L ratio s = non_null L (Cropper_setAspectRatio ratio) s"

definition setDragMode ::
  "('n, 'ev, 'l, 'v, 'x) Library \<Rightarrow> DragMode \<Rightarrow> ('n, 'ev, 'l, 'v, 'x) Method" where
  "setDragMode L mode s = non_null L (Cropper_setDragMode mode) s"

subsection \<open>What \<open>defineExpose\<close> hands to the host\<close>

text \<open>
  One call of the host on the exposed object: the key it calls and the arguments it
  gives. The constructors follow the object literal of \<open>defineExpose\<close>, in its order.
\<close>

datatype 'n HostCall =
    Call_reset
  | Call_clear
  | Call_initCrop
  | Call_replace string "bool Optional"
  | Call_enable
  | Call_disable
  | Call_destroy
  | Call_move 'n "'n Optional"
  | Call_moveTo 'n "'n Optional"
  | Call_zoom 'n
  | Call_zoomTo 'n "'n Pivot Optional"
  | Call_rotate 'n
  | Call_rotateTo 'n
  | Call_scaleX 'n
  | Call_scaleY 'n
  | Call_scale 'n "'n Optional"
  | Call_getData "bool Optional"
  | Call_getContainerData
  | Call_getImageData
  | Call_getCanvasData
  | Call_getCropBoxData
  | Call_setData "'n SetDataOptions"
  | Call_setCanvasData "'n SetCanvasDataOptions"
  | Call_setCropBoxData "'n SetCropBoxDataOptions"
  | Call_getCroppedCanvas "'n GetCroppedCanvasOptions Optional"
  | Call_setAspectRatio 'n
  | Call_setDragMode DragMode

text \<open>The keys of the exposed object.\<close>

definition exposed_keys :: "string list" where
  "exposed_keys =
     [''reset'', ''clear'', ''initCrop'', ''replace'', ''enable'', ''disable'', ''destroy'',
      ''move'', ''moveTo'', ''zoom'', ''zoomTo'', ''rotate'', ''rotateTo'', ''scaleX'',
      ''scaleY'', ''scale'', ''getData'', ''getContainerData'', ''getImageData'',
      ''getCanvasData'', ''getCropBoxData'', ''setData'', ''setCanvasData'',
      ''setCropBoxData'', ''getCroppedCanvas'', ''setAspectRatio'', ''setDragMode'']"

text \<open>The key a call of the host goes through.\<close>

fun key_of :: "'n HostCall \<Rightarrow> string" where
  "key_of Call_reset = ''reset''"
| "key_of Call_clear = ''clear''"
| "key_of Call_initCrop = ''initCrop''"
| "key_of (Call_replace _ _) = ''replace''"
| "key_of Call_enable = ''enable''"
| "key_of Call_disable = ''disable''"
| "key_of Call_destroy = ''destroy''"
| "key_of (Call_move _ _) = ''move''"
| "key_of (Call_moveTo _ _) = ''moveTo''"
| "key_of (Call_zoom _) = ''zoom''"
| "key_of (Call_zoomTo _ _) = ''zoomTo''"
| "key_of (Call_rotate _) = ''rotate''"
| "key_of (Call_rotateTo _) = ''rotateTo''"
| "key_of (Call_scaleX _) = ''scaleX''"
| "key_of (Call_scaleY _) = ''scaleY''"
| "key_of (Call_scale _ _) = ''scale''"
| "key_of (Call_getData _) = ''getData''"
| "key_of Call_getContainerData = ''getContainerData''"
| "key_of Call_getImageData = ''getImageData''"
| "key_of Call_getCanvasData = ''getCanvasData''"
| "key_of Call_getCropBoxData = ''getCropBoxData''"
| "key_of (Call_setData _) = ''setData''"
| "key_of (Call_setCanvasData _) = ''setCanvasData''"
| "key_of (Call_setCropBoxData _) = ''setCropBoxData''"
| "key_of (Call_getCroppedCanvas _) = ''getCroppedCanvas''"
| "key_of (Call_setAspectRatio _) = ''setAspectRatio''"
| "key_of (Call_setDragMode _) = ''setDragMode''"

text \<open>The function each key of the exposed object is bound to.\<close>

fun exposed ::
  "('n, 'ev, 'l, 'v, 'x) Library \<Rightarrow> 'n HostCall \<Rightarrow> ('n, 'ev, 'l, 'v, 'x) Method" where
  "exposed L Call_reset = reset L"
| "exposed L Call_clear = clear L"
| "exposed L Call_initCrop = initCrop L"
| "exposed L (Call_replace url onlyColorChanged) = replace L url onlyColorChanged"
| "exposed L Call_enable = enable L"
| "exposed L Call_disable = disable L"
| "exposed L Call_destroy = destroy L"
| "exposed L (Call_move offsetX offsetY) = move L offsetX offsetY"
| "exposed L (Call_moveTo x y) = moveTo L x y"
| "exposed L (Call_zoom ratio) = zoom L ratio"
| "exposed L (Call_zoomTo ratio originalEvent) = zoomTo L ratio originalEvent"
| "exposed L (Call_rotate degree) = rotate_by L degree"
| "exposed L (Call_rotateTo degree) = rotateTo L degree"
| "exposed L (Call_scaleX sx) = scaleX L sx"
| "exposed L (Call_scaleY sy) = scaleY L sy"
| "exposed L (Call_scale sx sy) = scale L sx sy"
| "exposed L (Call_getData rounded) = getData L rounded"
| "exposed L Call_getContainerData = getContainerData L"
| "exposed L Call_getImageData = getImageData L"
| "exposed L Call_getCanvasData = getCanvasData L"
| "exposed L Call_getCropBoxData = getCropBoxData L"
| "exposed L (Call_setData d) = setData L d"
| "exposed L (Call_setCanvasData d) = setCanvasData L d"
| "exposed L (Call_setCropBoxData d) = setCropBoxData L d"
| "exposed L (Call_getCroppedCanvas opts) = getCroppedCanvas L opts"
| "exposed L (Call_setAspectRatio ratio) = setAspectRatio L ratio"
| "exposed L (Call_setDragMode mode) = setDragMode L mode"

text \<open>The name of the underlying method a call goes to.\<close>

fun method_name :: "'n CropperCall \<Rightarrow> string" where
  "method_name Cropper_clear = ''clear''"
| "method_name Cropper_crop = ''crop''"
| "method_name Cropper_destroy = ''destroy''"
| "method_name Cropper_disable = ''disable''"
| "method_name Cropper_enable = ''enable''"
| "method_name Cropper_getCanvasData = ''getCanvasData''"
| "method_name Cropper_getContainerData = ''getContainerData''"
| "method_name Cropper_getCropBoxData = ''getCropBoxData''"
| "method_name (Cropper_getCroppedCanvas _) = ''getCroppedCanvas''"
| "method_name (Cropper_getData _) = ''getData''"
| "method_name Cropper_getImageData = ''getImageData''"
| "method_name (Cropper_move _ _) = ''move''"
| "method_name (Cropper_moveTo _ _) = ''moveTo''"
| "method_name (Cropper_replace _ _) = ''replace''"
| "method_name Cropper_reset = ''reset''"
| "method_name (Cropper_rotate _) = ''rotate''"
| "method_name (Cropper_rotateTo _) = ''rotateTo''"
| "method_name (Cropper_scale _ _) = ''scale''"
| "method_name (Cropper_scaleX _) = ''scaleX''"
| "method_name (Cropper_scaleY _) = ''scaleY''"
| "method_name (Cropper_setAspectRatio _) = ''setAspectRatio''"
| "method_name (Cropper_setCanvasData _) = ''setCanvasData''"
| "method_name (Cropper_setCropBoxData _) = ''setCropBoxData''"
| "method_name (Cropper_setData _) = ''setData''"
| "method_name (Cropper_setDragMode _) = ''setDragMode''"
| "method_name (Cropper_zoom _) = ''zoom''"
| "method_name (Cropper_zoomTo _ _) = ''zoomTo''"

subsection \<open>The template\<close>

text \<open>
  Writing a property into an object: the value of a key the object has is replaced in
  place, a new key comes last.
\<close>

fun set_property :: "string \<Rightarrow> 'v \<Rightarrow> (string \<times> 'v) list \<Rightarrow> (string \<times> 'v) list" where
  "set_property k v [] = [(k, v)]"
| "set_property k v ((k', v') # ps) =
     (if k' = k then (k, v) # ps else (k', v') # set_property k v ps)"

text \<open>
  The object spread \<open>{ ...obj, ...src }\<close>: the properties of \<open>src\<close> are written into \<open>obj\<close>
  in their order.
\<close>

fun spread :: "(string \<times> 'v) list \<Rightarrow> (string \<times> 'v) list \<Rightarrow> (string \<times> 'v) list" where
  "spread obj [] = obj"
| "spread obj ((k, v) # ps) = spread (set_property k v obj) ps"

text \<open>
  The framework is not part of the repository: what it makes of a style binding, the
  style \<open>'st\<close> the element gets, is a parameter. \<open>root_style\<close> is what it makes of the
  binding of the component's root element, where it also puts the attributes the host
  gives the component without a prop for them; \<open>element_style\<close> is what it makes of the
  binding of an inner element.
\<close>

record ('n, 'st) Framework =
  root_style :: "'n CSSProperties \<Rightarrow> 'st"
  element_style :: "'n CSSProperties \<Rightarrow> 'st"

record 'st Img =
  Img_src :: string
  Img_alt :: string
  Img_style :: 'st
  Img_crossorigin :: "Crossorigin option"

record 'st Div =
  Div_style :: 'st
  Div_children :: "'st Img list"

text \<open>
  The template: a \<open>div\<close> around one \<open>img\<close>. The style binding of the image is the object
  literal with \<open>max-width: 100%\<close> first and \<open>imgStyle\<close> spread over it.
\<close>

definition render :: "('n, 'st) Framework \<Rightarrow> 'n ImageCutEditorProps \<Rightarrow> 'st Div" where
  "render F p =
     \<lparr>Div_style = root_style F (containerStyle p),
      Div_children =
        [\<lparr>Img_src = default_to [] (src p),
          Img_alt = default_to ''image'' (alt p),
          Img_style =
            element_style F
              (spread [(''max-width'', Some (CSS_string ''100%''))] (imgStyle p)),
          Img_crossorigin = crossorigin p\<rparr>]\<rparr>"

subsection \<open>Runs of the component\<close>

text \<open>
  What can happen to a component after its script has run: the renderer binds the image
  ref, the framework runs the mounted hook, the host calls an exposed method, the library
  fires one of its callbacks with an event.
\<close>

datatype ('n, 'ev) Happening =
    Rendered HTMLImageElement
  | Mounted
  | Called "'n HostCall"
  | Fired OptionKey 'ev

text \<open>
  The library firing the callback under key \<open>k\<close>: it runs what the options of its
  construction hold there, if that is a callback.
\<close>

definition fire ::
  "OptionKey \<Rightarrow> 'ev \<Rightarrow> ('n, 'ev, 'l) Component \<Rightarrow> ('n, 'ev, 'l) Component" where
  "fire k ev s =
     (case cropper s of
        None \<Rightarrow> s
      | Some i \<Rightarrow>
          (case map_of (options i) k of
             Some (Callback h) \<Rightarrow> s\<lparr>emitted := h ev (emitted s)\<rparr>
           | _ \<Rightarrow> s))"

fun step ::
  "('n, 'ev, 'l, 'v, 'x) Library \<Rightarrow> 'n ImageCutEditorProps \<Rightarrow> ('n, 'ev) Happening \<Rightarrow>
   ('n, 'ev, 'l) Component \<Rightarrow> ('n, 'ev, 'l) Component" where
  "step L p (Rendered el) s = s\<lparr>imageRef := Some el\<rparr>"
| "step L p Mounted s = onMounted L p s"
| "step L p (Called c) s = snd (exposed L c s)"
| "step L p (Fired k ev) s = fire k ev s"

fun run ::
  "('n, 'ev, 'l, 'v, 'x) Library \<Rightarrow> 'n ImageCutEditorProps \<Rightarrow> ('n, 'ev) Happening list \<Rightarrow>
   ('n, 'ev, 'l) Component \<Rightarrow> ('n, 'ev, 'l) Component" where
  "run L p [] s = s"
| "run L p (h # hs) s = run L p hs (step L p h s)"

text \<open>How often the mounted hook runs in a run, and how many instances were constructed.\<close>

fun is_Mounted :: "('n, 'ev) Happening \<Rightarrow> bool" where
  "is_Mounted Mounted = True"
| "is_Mounted _ = False"

definition mounts :: "('n, 'ev) Happening list \<Rightarrow> nat" where
  "mounts hs = length (filter is_Mounted hs)"

definition constructions :: "('n, 'ev, 'l) Component \<Rightarrow> nat" where
  "constructions s = length (filter is_Constructed (trace s))"

section \<open>The specification's wording and the script's argument lists, for comparison\<close>

text \<open>The forwarding set as the specification lists it (section 4.1).\<close>

definition spec_forwarding_set :: "string list" where
  "spec_forwarding_set =
     [''reset'', ''clear'', ''crop'', ''replace'', ''enable'', ''disable'', ''destroy'',
      ''move'', ''moveTo'', ''zoom'', ''zoomTo'', ''rotate'', ''rotateTo'', ''scaleX'',
      ''scaleY'', ''scale'', ''getData'', ''getContainerData'', ''getImageData'',
      ''getCanvasData'', ''setCanvasData'', ''getCropBoxData'', ''setCropBoxData'',
      ''getCroppedCanvas'', ''setAspectRatio'', ''setDragMode'']"

text \<open>
  A direct pass-through as the specification words it: the underlying call has the
  argument list of the host's call, in its order: an argument the host omitted is
  omitted, one it passed is passed as it is.
\<close>

fun direct_pass_through :: "'n HostCall \<Rightarrow> 'n CropperCall" where
  "direct_pass_through Call_reset = Cropper_reset"
| "direct_pass_through Call_clear = Cropper_clear"
| "direct_pass_through Call_initCrop = Cropper_crop"
| "direct_pass_through (Call_replace url onlyColorChanged) = Cropper_replace url onlyColorChanged"
| "direct_pass_through Call_enable = Cropper_enable"
| "direct_pass_through Call_disable = Cropper_disable"
| "direct_pass_through Call_destroy = Cropper_destroy"
| "direct_pass_through (Call_move offsetX offsetY) = Cropper_move offsetX offsetY"
| "direct_pass_through (Call_moveTo x y) = Cropper_moveTo x y"
| "direct_pass_through (Call_zoom ratio) = Cropper_zoom ratio"
| "direct_pass_through (Call_zoomTo ratio pivot) = Cropper_zoomTo ratio pivot"
| "direct_pass_through (Call_rotate degree) = Cropper_rotate degree"
| "direct_pass_through (Call_rotateTo degree) = Cropper_rotateTo degree"
| "direct_pass_through (Call_scaleX sx) = Cropper_scaleX sx"
| "direct_pass_through (Call_scaleY sy) = Cropper_scaleY sy"
| "direct_pass_through (Call_scale sx sy) = Cropper_scale sx sy"
| "direct_pass_through (Call_getData rounded) = Cropper_getData rounded"
| "direct_pass_through Call_getContainerData = Cropper_getContainerData"
| "direct_pass_through Call_getImageData = Cropper_getImageData"
| "direct_pass_through Call_getCanvasData = Cropper_getCanvasData"
| "direct_pass_through Call_getCropBoxData = Cropper_getCropBoxData"
| "direct_pass_through (Call_setData d) = Cropper_setData d"
| "direct_pass_through (Call_setCanvasData d) = Cropper_setCanvasData d"
| "direct_pass_through (Call_setCropBoxData d) = Cropper_setCropBoxData d"
| "direct_pass_through (Call_getCroppedCanvas opts) = Cropper_getCroppedCanvas opts"
| "direct_pass_through (Call_setAspectRatio ratio) = Cropper_setAspectRatio ratio"
| "direct_pass_through (Call_setDragMode mode) = Cropper_setDragMode mode"

text \<open>
  The argument list as the script writes it in the forwarded call: never shorter than
  the method's parameter list. An optional argument holds what the script's parameter
  reads: for \<open>move\<close> and \<open>zoomTo\<close> the host's value or \<open>undefined\<close>; for the parameters
  with a default the host's value or the default: \<open>false\<close> for \<open>onlyColorChanged\<close> and
  \<open>rounded\<close>, the first coordinate for the second of \<open>moveTo\<close> and \<open>scale\<close>, the empty
  object for the options of \<open>getCroppedCanvas\<close>.
\<close>

fun full_arguments :: "'n CropperCall \<Rightarrow> 'n CropperCall" where
  "full_arguments (Cropper_replace url onlyColorChanged) =
     Cropper_replace url (Passed (Some (default_to False (read_param onlyColorChanged))))"
| "full_arguments (Cropper_move offsetX offsetY) =
     Cropper_move offsetX (Passed (read_param offsetY))"
| "full_arguments (Cropper_moveTo x y) =
     Cropper_moveTo x (Passed (Some (default_to x (read_param y))))"
| "full_arguments (Cropper_zoomTo ratio pivot) = Cropper_zoomTo ratio (Passed (read_param pivot))"
| "full_arguments (Cropper_scale sx sy) =
     Cropper_scale sx (Passed (Some (default_to sx (read_param sy))))"
| "full_arguments (Cropper_getData rounded) =
     Cropper_getData (Passed (Some (default_to False (read_param rounded))))"
| "full_arguments (Cropper_getCroppedCanvas opts) =
     Cropper_getCroppedCanvas (Passed (Some (default_to empty_options (read_param opts))))"
| "full_arguments c = c"

text \<open>The number of arguments written in a call.\<close>

fun written :: "'a Optional \<Rightarrow> nat" where
  "written Omitted = 0"
| "written (Passed _) = 1"

fun arity :: "'n CropperCall \<Rightarrow> nat" where
  "arity (Cropper_getCroppedCanvas opts) = written opts"
| "arity (Cropper_getData rounded) = written rounded"
| "arity (Cropper_move _ offsetY) = 1 + written offsetY"
| "arity (Cropper_moveTo _ y) = 1 + written y"
| "arity (Cropper_replace _ onlyColorChanged) = 1 + written onlyColorChanged"
| "arity (Cropper_rotate _) = 1"
| "arity (Cropper_rotateTo _) = 1"
| "arity (Cropper_scale _ sy) = 1 + written sy"
| "arity (Cropper_scaleX _) = 1"
| "arity (Cropper_scaleY _) = 1"
| "arity (Cropper_setAspectRatio _) = 1"
| "arity (Cropper_setCanvasData _) = 1"
| "arity (Cropper_setCropBoxData _) = 1"
| "arity (Cropper_setData _) = 1"
| "arity (Cropper_setDragMode _) = 1"
| "arity (Cropper_zoom _) = 1"
| "arity (Cropper_zoomTo _ pivot) = 1 + written pivot"
| "arity _ = 0"

text \<open>The number of parameters of the underlying method, optional ones included.\<close>

fun parameters :: "'n CropperCall \<Rightarrow> nat" where
  "parameters (Cropper_getCroppedCanvas _) = 1"
| "parameters (Cropper_getData _) = 1"
| "parameters (Cropper_move _ _) = 2"
| "parameters (Cropper_moveTo _ _) = 2"
| "parameters (Cropper_replace _ _) = 2"
| "parameters (Cropper_rotate _) = 1"
| "parameters (Cropper_rotateTo _) = 1"
| "parameters (Cropper_scale _ _) = 2"
| "parameters (Cropper_scaleX _) = 1"
| "parameters (Cropper_scaleY _) = 1"
| "parameters (Cropper_setAspectRatio _) = 1"
| "parameters (Cropper_setCanvasData _) = 1"
| "parameters (Cropper_setCropBoxData _) = 1"
| "parameters (Cropper_setData _) = 1"
| "parameters (Cropper_setDragMode _) = 1"
| "parameters (Cropper_zoom _) = 1"
| "parameters (Cropper_zoomTo _ _) = 2"
| "parameters _ = 0"

text \<open>The names of the underlying methods a trace has invoked, in order.\<close>

fun invoked_names :: "'n Interaction list \<Rightarrow> string list" where
  "invoked_names [] = []"
| "invoked_names (Constructed _ # t) = invoked_names t"
| "invoked_names (Invoked c # t) = method_name c # invoked_names t"

text \<open>
  The three states of the specification's state machine (section 4.1), read off the
  component: mounted while an instance is held; without one, unmounted when none was ever
  constructed, destroyed when one was constructed and has been released.
\<close>

datatype FacadeState = State_unmounted | State_mounted | State_destroyed

definition facade_state :: "('n, 'ev, 'l) Component \<Rightarrow> FacadeState" where
  "facade_state s =
     (case cropper s of
        Some i \<Rightarrow> State_mounted
      | None \<Rightarrow> if constructions s = 0 then State_unmounted else State_destroyed)"

section \<open>Predicates over the component's state\<close>

text \<open>The keys whose method reads the instance through a non-null assertion.\<close>

definition asserting_keys :: "string list" where
  "asserting_keys =
     [''move'', ''setData'', ''setCanvasData'', ''setCropBoxData'', ''getCroppedCanvas'',
      ''setAspectRatio'', ''setDragMode'']"

text \<open>An instance, when there is one, holds the options of the mounted hook.\<close>

definition subscribed :: "'n ImageCutEditorProps \<Rightarrow> ('n, 'ev, 'l) Component \<Rightarrow> bool" where
  "subscribed p s = (case cropper s of None \<Rightarrow> True | Some i \<Rightarrow> options i = mount_options p)"

text \<open>The events without a payload.\<close>

definition presence_only :: "Emitted list" where
  "presence_only = [Emit_ready, Emit_start, Emit_move, Emit_end, Emit_crop, Emit_zoom]"

section \<open>A test double for the library\<close>

text \<open>
  A library that records the calls it receives and answers by the return types of the
  interface \<open>Cropper\<close>: a record for the getters, \<open>undefined\<close> for the methods of type
  \<open>void\<close>. It stands in for \<open>cropperjs\<close> where a concrete run is evaluated.
\<close>

datatype 'n Returned =
    Returned_Data "'n Data"
  | Returned_ContainerData "'n ContainerData"
  | Returned_ImageData "'n ImageData"
  | Returned_CanvasData "'n CanvasData"
  | Returned_CropBoxData "'n CropBoxData"
  | Returned_HTMLCanvasElement nat

fun spy_reply :: "int CropperCall \<Rightarrow> int Returned option" where
  "spy_reply (Cropper_getData _) =
     Some (Returned_Data \<lparr>Data_x = 0, Data_y = 0, Data_width = 0, Data_height = 0,
                          Data_rotate = 0, Data_scaleX = 1, Data_scaleY = 1\<rparr>)"
| "spy_reply Cropper_getContainerData =
     Some (Returned_ContainerData \<lparr>ContainerData_width = 0, ContainerData_height = 0\<rparr>)"
| "spy_reply Cropper_getImageData =
     Some (Returned_ImageData
       \<lparr>ImageData_left = 0, ImageData_top = 0, ImageData_width = 0, ImageData_height = 0,
        ImageData_rotate = 0, ImageData_scaleX = 1, ImageData_scaleY = 1,
        ImageData_naturalWidth = 0, ImageData_naturalHeight = 0, ImageData_aspectRatio = 1\<rparr>)"
| "spy_reply Cropper_getCanvasData =
     Some (Returned_CanvasData
       \<lparr>CanvasData_left = 0, CanvasData_top = 0, CanvasData_width = 0, CanvasData_height = 0,
        CanvasData_naturalWidth = 0, CanvasData_naturalHeight = 0\<rparr>)"
| "spy_reply Cropper_getCropBoxData =
     Some (Returned_CropBoxData
       \<lparr>CropBoxData_left = 0, CropBoxData_top = 0, CropBoxData_width = 0,
        CropBoxData_height = 0\<rparr>)"
| "spy_reply (Cropper_getCroppedCanvas _) = Some (Returned_HTMLCanvasElement 0)"
| "spy_reply _ = None"

definition spy :: "(int, unit, int CropperCall list, int Returned, unit) Library" where
  "spy = \<lparr>create = (\<lambda>el opts. []), perform = (\<lambda>c l. (Inr (spy_reply c), l @ [c]))\<rparr>"

definition example_props :: "int ImageCutEditorProps" where
  "example_props =
     \<lparr>containerStyle = [(''width'', Some (CSS_string ''400px''))], src = Some ''photo.png'',
      alt = None, imgStyle = [(''display'', Some (CSS_string ''block''))],
      crossorigin = Some Crossorigin_anonymous, aspectRatio = Some 1\<rparr>"

text \<open>The same props with an image style that sets the maximal width in camel case.\<close>

definition camel_props :: "int ImageCutEditorProps" where
  "camel_props = example_props\<lparr>imgStyle := [(''maxWidth'', Some (CSS_string ''50%''))]\<rparr>"

section \<open>Test doubles for the framework\<close>

text \<open>A framework that leaves a style binding as it is.\<close>

definition as_bound :: "('n, 'n CSSProperties) Framework" where
  "as_bound = \<lparr>root_style = (\<lambda>obj. obj), element_style = (\<lambda>obj. obj)\<rparr>"

text \<open>
  A framework that writes a style binding into the style declaration of an element the
  way a page does: property by property in the object's order, under the property's name
  in camel case, a later write replacing an earlier one, \<open>undefined\<close> and the empty string
  removing the property.
\<close>

definition upper :: "char \<Rightarrow> char" where
  "upper c =
     (case map_of (zip ''abcdefghijklmnopqrstuvwxyz'' ''ABCDEFGHIJKLMNOPQRSTUVWXYZ'') c of
        Some C \<Rightarrow> C
      | None \<Rightarrow> c)"

fun camelize :: "string \<Rightarrow> string" where
  "camelize (c # d # cs) =
     (if c = CHR ''-'' \<and> d \<noteq> CHR ''-'' then upper d # camelize cs else c # camelize (d # cs))"
| "camelize cs = cs"

fun write_style ::
  "'n CSSProperties \<Rightarrow> (string \<rightharpoonup> 'n CSSValue) \<Rightarrow> (string \<rightharpoonup> 'n CSSValue)" where
  "write_style [] m = m"
| "write_style ((k, None) # ps) m = write_style ps (m(camelize k := None))"
| "write_style ((k, Some (CSS_string [])) # ps) m = write_style ps (m(camelize k := None))"
| "write_style ((k, Some v) # ps) m = write_style ps (m(camelize k \<mapsto> v))"

definition page :: "('n, string \<rightharpoonup> 'n CSSValue) Framework" where
  "page =
     \<lparr>root_style = (\<lambda>obj. write_style obj Map.empty),
      element_style = (\<lambda>obj. write_style obj Map.empty)\<rparr>"

text \<open>The example component, rendered on element 7 and mounted.\<close>

definition mounted_example :: "(int, unit, int CropperCall list) Component" where
  "mounted_example = run spy example_props [Rendered 7, Mounted] initial"

text \<open>The same component after the host has called \<open>destroy\<close>.\<close>

definition destroyed_example :: "(int, unit, int CropperCall list) Component" where
  "destroyed_example = run spy example_props [Rendered 7, Mounted, Called Call_destroy] initial"

section \<open>Auxiliary facts\<close>

lemmas method_defs =
  reset_def clear_def initCrop_def replace_def enable_def disable_def destroy_def move_def
  moveTo_def zoom_def zoomTo_def rotate_by_def rotateTo_def scaleX_def scaleY_def scale_def
  getData_def setData_def getContainerData_def getImageData_def getCanvasData_def
  setCanvasData_def getCropBoxData_def setCropBoxData_def getCroppedCanvas_def
  setAspectRatio_def setDragMode_def

lemma optional_chain_absent: "cropper s = None \<Longrightarrow> optional_chain L c s = (Inr None, s)"
  by (simp add: optional_chain_def)

lemma non_null_absent: "cropper s = None \<Longrightarrow> non_null L c s = (Inl TypeError, s)"
  by (simp add: non_null_def)

lemma optional_chain_live: "cropper s = Some i \<Longrightarrow> optional_chain L c s = forward L c i s"
  by (simp add: optional_chain_def)

lemma non_null_live: "cropper s = Some i \<Longrightarrow> non_null L c s = forward L c i s"
  by (simp add: non_null_def)

lemma exposed_live:
  "cropper s = Some i \<Longrightarrow> exposed L c s = forward L (full_arguments (direct_pass_through c)) i s"
  by (cases c) (simp_all add: method_defs optional_chain_live non_null_live)

lemma exposed_absent:
  "cropper s = None \<Longrightarrow>
   exposed L c s = (if key_of c \<in> set asserting_keys then Inl TypeError else Inr None, s)"
  by (cases c) (simp_all add: method_defs optional_chain_absent non_null_absent asserting_keys_def)

lemma forward_fields:
  "cropper (snd (forward L c i s)) = Some (i\<lparr>internal := snd (perform L c (internal i))\<rparr>)"
  "imageRef (snd (forward L c i s)) = imageRef s"
  "emitted (snd (forward L c i s)) = emitted s"
  "trace (snd (forward L c i s)) = trace s @ [Invoked c]"
  by (simp_all add: forward_def split: prod.splits)

lemma forward_result:
  "fst (forward L c i s) =
     (case fst (perform L c (internal i)) of Inl x \<Rightarrow> Inl (LibraryFault x) | Inr v \<Rightarrow> Inr v)"
  by (simp add: forward_def split: prod.splits)

lemma callback_keys_mount:
  "callback_keys (mount_options p) =
     [ready_key, cropstart_key, cropmove_key, cropend_key, crop_key, zoom_key]"
  by (simp add: callback_keys_def mount_options_def)

lemma fire_subscribed:
  assumes "cropper s = Some i" and "options i = mount_options p"
  shows "fire ready_key ev s = s\<lparr>emitted := emitted s @ [Emit_ready]\<rparr>"
    and "fire cropstart_key ev s = s\<lparr>emitted := emitted s @ [Emit_start]\<rparr>"
    and "fire cropmove_key ev s = s\<lparr>emitted := emitted s @ [Emit_move]\<rparr>"
    and "fire cropend_key ev s = s\<lparr>emitted := emitted s @ [Emit_end]\<rparr>"
    and "fire crop_key ev s = s\<lparr>emitted := emitted s @ [Emit_crop]\<rparr>"
    and "fire zoom_key ev s = s\<lparr>emitted := emitted s @ [Emit_zoom]\<rparr>"
  using assms by (simp_all add: fire_def mount_options_def emit_def)

lemma fire_other:
  assumes "cropper s = Some i" and "options i = mount_options p"
    and "k \<notin> set (callback_keys (mount_options p))"
  shows "fire k ev s = s"
  using assms by (cases k) (simp_all add: fire_def mount_options_def callback_keys_def)

lemma fire_absent: "cropper s = None \<Longrightarrow> fire k ev s = s"
  by (simp add: fire_def)

lemma subscribed_step: "subscribed p s \<Longrightarrow> subscribed p (step L p h s)"
proof (cases h)
  case (Rendered el)
  assume "subscribed p s"
  with Rendered show ?thesis by (simp add: subscribed_def)
next
  case Mounted
  assume "subscribed p s"
  with Mounted show ?thesis
    by (simp add: subscribed_def onMounted_def split: option.splits)
next
  case (Called c)
  assume a: "subscribed p s"
  show ?thesis
  proof (cases "cropper s")
    case None
    with a Called show ?thesis by (simp add: exposed_absent)
  next
    case (Some i)
    with a Called show ?thesis
      by (simp add: exposed_live forward_fields subscribed_def)
  qed
next
  case (Fired k ev)
  assume "subscribed p s"
  with Fired show ?thesis
    by (auto simp: subscribed_def fire_def split: option.splits OptionValue.splits)
qed

lemma subscribed_run: "subscribed p s \<Longrightarrow> subscribed p (run L p hs s)"
  by (induction hs arbitrary: s) (simp_all add: subscribed_step)

lemma subscribed_initial: "subscribed p initial"
  by (simp add: subscribed_def initial_def)

lemma emitted_step:
  assumes "subscribed p s" and "set (emitted s) \<subseteq> set presence_only"
  shows "set (emitted (step L p h s)) \<subseteq> set presence_only"
proof (cases h)
  case (Rendered el)
  with assms show ?thesis by simp
next
  case Mounted
  with assms show ?thesis by (simp add: onMounted_def split: option.splits)
next
  case (Called c)
  show ?thesis
  proof (cases "cropper s")
    case None
    with assms Called show ?thesis by (simp add: exposed_absent)
  next
    case (Some i)
    with assms Called show ?thesis by (simp add: exposed_live forward_fields)
  qed
next
  case (Fired k ev)
  show ?thesis
  proof (cases "cropper s")
    case None
    with assms Fired show ?thesis by (simp add: fire_absent)
  next
    case (Some i)
    with assms have o: "options i = mount_options p" by (simp add: subscribed_def)
    show ?thesis
    proof (cases "k \<in> set (callback_keys (mount_options p))")
      case False
      with Some o Fired assms show ?thesis by (simp add: fire_other)
    next
      case True
      then consider "k = ready_key" | "k = cropstart_key" | "k = cropmove_key"
        | "k = cropend_key" | "k = crop_key" | "k = zoom_key"
        by (auto simp: callback_keys_mount)
      then show ?thesis
        using Some o Fired assms
        by cases (simp_all add: fire_subscribed presence_only_def)
    qed
  qed
qed

lemma emitted_run:
  "subscribed p s \<Longrightarrow> set (emitted s) \<subseteq> set presence_only \<Longrightarrow>
   set (emitted (run L p hs s)) \<subseteq> set presence_only"
  by (induction hs arbitrary: s) (simp_all add: subscribed_step emitted_step)

lemma mounted_example_fields:
  "imageRef mounted_example = Some 7"
  "cropper mounted_example =
     Some \<lparr>element = 7, options = mount_options example_props, internal = []\<rparr>"
  "emitted mounted_example = []"
  "trace mounted_example = [Constructed 7]"
  by (simp_all add: mounted_example_def initial_def onMounted_def spy_def)

lemma fire_fields:
  "cropper (fire k ev s) = cropper s"
  "imageRef (fire k ev s) = imageRef s"
  "trace (fire k ev s) = trace s"
  by (simp_all add: fire_def split: option.splits OptionValue.splits)

lemma step_constructions:
  "constructions (step L p h s) =
     constructions s + (if h = Mounted \<and> imageRef s \<noteq> None then 1 else 0)"
proof (cases h)
  case (Rendered el)
  then show ?thesis by (simp add: constructions_def)
next
  case Mounted
  then show ?thesis by (auto simp: constructions_def onMounted_def split: option.splits)
next
  case (Called c)
  then show ?thesis
    by (cases "cropper s")
      (simp_all add: constructions_def exposed_absent exposed_live forward_fields)
next
  case (Fired k ev)
  then show ?thesis by (simp add: constructions_def fire_fields)
qed

lemma step_holder_kept: "cropper s \<noteq> None \<Longrightarrow> cropper (step L p h s) \<noteq> None"
proof (cases h)
  case (Rendered el)
  assume "cropper s \<noteq> None"
  with Rendered show ?thesis by simp
next
  case Mounted
  assume "cropper s \<noteq> None"
  with Mounted show ?thesis by (simp add: onMounted_def split: option.splits)
next
  case (Called c)
  assume "cropper s \<noteq> None"
  then obtain i where "cropper s = Some i" by blast
  with Called show ?thesis by (simp add: exposed_live forward_fields)
next
  case (Fired k ev)
  assume "cropper s \<noteq> None"
  with Fired show ?thesis by (simp add: fire_fields)
qed

lemma run_holder_kept: "cropper s \<noteq> None \<Longrightarrow> cropper (run L p hs s) \<noteq> None"
proof (induction hs arbitrary: s)
  case Nil
  then show ?case by simp
next
  case (Cons h hs)
  from Cons.prems have "cropper (step L p h s) \<noteq> None" by (rule step_holder_kept)
  then have "cropper (run L p hs (step L p h s)) \<noteq> None" by (rule Cons.IH)
  then show ?case by simp
qed

lemma step_holder_filled:
  "cropper s = None \<Longrightarrow> cropper (step L p h s) \<noteq> None \<Longrightarrow> h = Mounted \<and> imageRef s \<noteq> None"
  by (cases h) (auto simp: exposed_absent fire_fields onMounted_def split: option.splits)

lemma step_mounted_fills:
  "imageRef s \<noteq> None \<Longrightarrow> cropper (step L p Mounted s) \<noteq> None"
  by (auto simp: onMounted_def)

lemma run_constructions:
  "constructions (run L p hs s) \<le> constructions s + mounts hs"
proof (induction hs arbitrary: s)
  case Nil
  then show ?case by simp
next
  case (Cons h hs)
  have a: "constructions (run L p hs (step L p h s)) \<le> constructions (step L p h s) + mounts hs"
    by (rule Cons.IH)
  have b: "constructions (step L p h s) \<le> constructions s + (if h = Mounted then 1 else 0)"
    by (simp add: step_constructions)
  have c: "mounts (h # hs) = (if h = Mounted then 1 else 0) + mounts hs"
    by (cases h) (simp_all add: mounts_def)
  from a b c show ?case by simp
qed

lemma run_constructions_unmounted:
  "mounts hs = 0 \<Longrightarrow> constructions (run L p hs s) = constructions s"
proof (induction hs arbitrary: s)
  case Nil
  then show ?case by simp
next
  case (Cons h hs)
  from Cons.prems have h: "h \<noteq> Mounted" and hs: "mounts hs = 0"
    by (auto simp: mounts_def split: if_splits)
  from h have "constructions (step L p h s) = constructions s"
    by (simp add: step_constructions)
  with Cons.IH [OF hs] show ?case by simp
qed

lemma held_step:
  "(constructions s = 0 \<or> cropper s \<noteq> None) \<Longrightarrow>
   (constructions (step L p h s) = 0 \<or> cropper (step L p h s) \<noteq> None)"
proof (cases "cropper s")
  case (Some i)
  then show ?thesis by (simp add: step_holder_kept)
next
  case None
  assume "constructions s = 0 \<or> cropper s \<noteq> None"
  with None have z: "constructions s = 0" by simp
  show ?thesis
  proof (cases "h = Mounted \<and> imageRef s \<noteq> None")
    case True
    then show ?thesis by (auto simp: onMounted_def)
  next
    case False
    then have "(if h = Mounted \<and> imageRef s \<noteq> None then 1 else 0) = (0::nat)"
      by (rule if_not_P)
    with z have "constructions (step L p h s) = 0"
      by (simp only: step_constructions)
    then show ?thesis by (rule disjI1)
  qed
qed

lemma held_run:
  "(constructions s = 0 \<or> cropper s \<noteq> None) \<Longrightarrow>
   (constructions (run L p hs s) = 0 \<or> cropper (run L p hs s) \<noteq> None)"
proof (induction hs arbitrary: s)
  case Nil
  then show ?case by simp
next
  case (Cons h hs)
  from Cons.prems have "constructions (step L p h s) = 0 \<or> cropper (step L p h s) \<noteq> None"
    by (rule held_step)
  then show ?case using Cons.IH by simp
qed

lemma constructions_initial: "constructions initial = 0"
  by (simp add: constructions_def initial_def)

lemma destroyed_example_fields:
  "imageRef destroyed_example = Some 7"
  "cropper destroyed_example =
     Some \<lparr>element = 7, options = mount_options example_props, internal = [Cropper_destroy]\<rparr>"
  "emitted destroyed_example = []"
  "trace destroyed_example = [Constructed 7, Invoked Cropper_destroy]"
  by (simp_all add: destroyed_example_def initial_def onMounted_def spy_def destroy_def
      optional_chain_def forward_def)

lemma invoked_names_append:
  "invoked_names (t @ u) = invoked_names t @ invoked_names u"
  by (induction t rule: invoked_names.induct) simp_all

lemma map_of_set_property: "map_of (set_property k v ps) = (map_of ps)(k \<mapsto> v)"
  by (induction ps) (auto simp: fun_eq_iff)

lemma keys_set_property:
  "map fst (set_property k v ps) =
     (if k \<in> set (map fst ps) then map fst ps else map fst ps @ [k])"
  by (induction k v ps rule: set_property.induct) (auto simp: image_iff)

lemma map_of_spread:
  "distinct (map fst qs) \<Longrightarrow> map_of (spread obj qs) = map_of obj ++ map_of qs"
proof (induction qs arbitrary: obj)
  case Nil
  then show ?case by simp
next
  case (Cons e qs)
  obtain k v where e: "e = (k, v)" by (cases e)
  from Cons.prems e have k: "k \<notin> fst ` set qs" and d: "distinct (map fst qs)" by auto
  from k have n: "map_of qs k = None" by (simp add: map_of_eq_None_iff)
  have "map_of (spread obj (e # qs)) = map_of (spread (set_property k v obj) qs)"
    using e by simp
  also have "\<dots> = map_of (set_property k v obj) ++ map_of qs"
    by (rule Cons.IH [OF d])
  also have "\<dots> = (map_of obj)(k \<mapsto> v) ++ map_of qs"
    by (simp only: map_of_set_property)
  also have "\<dots> = map_of obj ++ map_of (e # qs)"
    using n e by (auto simp: fun_eq_iff map_add_def split: option.splits)
  finally show ?case .
qed

lemma keys_spread:
  "distinct (map fst qs) \<Longrightarrow>
   map fst (spread obj qs) =
     map fst obj @ filter (\<lambda>k. k \<notin> set (map fst obj)) (map fst qs)"
proof (induction qs arbitrary: obj)
  case Nil
  then show ?case by simp
next
  case (Cons e qs)
  obtain k v where e: "e = (k, v)" by (cases e)
  from Cons.prems e have k: "k \<notin> set (map fst qs)" and d: "distinct (map fst qs)" by auto
  have "map fst (spread obj (e # qs)) = map fst (spread (set_property k v obj) qs)"
    using e by simp
  also have "\<dots> = map fst (set_property k v obj) @
      filter (\<lambda>k'. k' \<notin> set (map fst (set_property k v obj))) (map fst qs)"
    by (rule Cons.IH [OF d])
  also have "\<dots> = map fst obj @ filter (\<lambda>k'. k' \<notin> set (map fst obj)) (map fst (e # qs))"
  proof (cases "k \<in> set (map fst obj)")
    case True
    with e show ?thesis by (simp add: keys_set_property)
  next
    case False
    have "filter (\<lambda>k'. k' \<notin> set (map fst obj @ [k])) (map fst qs) =
          filter (\<lambda>k'. k' \<notin> set (map fst obj)) (map fst qs)"
      using k by (intro filter_cong) auto
    with False e show ?thesis by (simp add: keys_set_property)
  qed
  finally show ?case .
qed

lemma forward_not_TypeError: "fst (forward L c i s) \<noteq> Inl TypeError"
  by (simp add: forward_result split: sum.splits)

section \<open>Calls without an instance\<close>

text \<open>
  Claim C1. While the component holds no instance, a call through a key of the exposed
  object changes nothing. It returns \<open>undefined\<close> for the twenty keys whose function
  reads the instance by optional chaining; it raises \<open>TypeError\<close> for the seven keys whose
  function reads it through a non-null assertion: \<open>move\<close>, \<open>setData\<close>, \<open>setCanvasData\<close>,
  \<open>setCropBoxData\<close>, \<open>getCroppedCanvas\<close>, \<open>setAspectRatio\<close>, \<open>setDragMode\<close>. The
  witness evaluates \<open>move(10)\<close> and \<open>setData({x: 1})\<close> before the mounted hook has run:
  both raise, where \<open>moveTo(10)\<close> returns \<open>undefined\<close>.
\<close>

theorem absent_instance:
  "cropper s = None \<Longrightarrow>
   exposed L c s = (if key_of c \<in> set asserting_keys then Inl TypeError else Inr None, s)"
  by (cases c)
    (simp_all add: method_defs optional_chain_absent non_null_absent asserting_keys_def)

theorem absent_instance_witness:
  "cropper (initial :: (int, unit, int CropperCall list) Component) = None \<and>
   fst (exposed spy (Call_move 10 Omitted) initial) = Inl TypeError \<and>
   fst (exposed spy (Call_setData \<lparr>sd_x = Some 1, sd_y = None, sd_width = None,
     sd_height = None, sd_rotate = None, sd_scaleX = None, sd_scaleY = None\<rparr>) initial) = Inl TypeError \<and>
   fst (exposed spy (Call_moveTo 10 Omitted) initial) = Inr None"
proof -
  have n: "cropper (initial :: (int, unit, int CropperCall list) Component) = None"
    by (simp add: initial_def)
  show ?thesis
    using n absent_instance [OF n, of spy "Call_move 10 Omitted"]
      absent_instance [OF n, of spy "Call_setData \<lparr>sd_x = Some 1, sd_y = None, sd_width = None,
     sd_height = None, sd_rotate = None, sd_scaleX = None, sd_scaleY = None\<rparr>"]
      absent_instance [OF n, of spy "Call_moveTo 10 Omitted"]
    by (simp add: asserting_keys_def)
qed

section \<open>Calls after \<open>destroy\<close>\<close>

text \<open>
  Against claim C2 as stated: on the example component, mounted and then destroyed,
  \<open>getData()\<close> does not return \<open>undefined\<close>; it returns what the instance answers.
\<close>

theorem after_destroy_counterexample:
  "fst (exposed spy (Call_getData Omitted) destroyed_example) \<noteq> Inr None"
  by (simp add: destroyed_example_fields getData_def optional_chain_def forward_def spy_def)

text \<open>
  Claim C2, amended. \<open>destroy\<close> on a component that holds an instance forwards to the
  instance and keeps holding it. The call after it, through any key, is forwarded to that
  instance, in the state its \<open>destroy\<close> left, and returns or raises what the instance
  does. Whatever happens afterwards, the component holds an instance; and as long as the
  mounted hook does not run again, no instance is constructed.
\<close>

theorem after_destroy:
  assumes "cropper s = Some i"
  shows
    "cropper (snd (destroy L s)) =
       Some (i\<lparr>internal := snd (perform L Cropper_destroy (internal i))\<rparr>) \<and>
     fst (exposed L c (snd (destroy L s))) =
       (case fst (perform L (full_arguments (direct_pass_through c))
                    (snd (perform L Cropper_destroy (internal i)))) of
          Inl x \<Rightarrow> Inl (LibraryFault x)
        | Inr v \<Rightarrow> Inr v) \<and>
     cropper (run L p hs (snd (destroy L s))) \<noteq> None \<and>
     (mounts hs = 0 \<longrightarrow>
        constructions (run L p hs (snd (destroy L s))) = constructions s)"
proof -
  let ?i = "i\<lparr>internal := snd (perform L Cropper_destroy (internal i))\<rparr>"
  from assms have d: "destroy L s = forward L Cropper_destroy i s"
    by (simp add: destroy_def optional_chain_live)
  then have held: "cropper (snd (destroy L s)) = Some ?i"
    by (simp add: forward_fields)
  have "exposed L c (snd (destroy L s)) =
          forward L (full_arguments (direct_pass_through c)) ?i (snd (destroy L s))"
    using held by (rule exposed_live)
  then have answer: "fst (exposed L c (snd (destroy L s))) =
       (case fst (perform L (full_arguments (direct_pass_through c))
                    (snd (perform L Cropper_destroy (internal i)))) of
          Inl x \<Rightarrow> Inl (LibraryFault x)
        | Inr v \<Rightarrow> Inr v)"
    by (simp add: forward_result)
  from held have kept: "cropper (run L p hs (snd (destroy L s))) \<noteq> None"
    by (simp add: run_holder_kept)
  have "constructions (snd (destroy L s)) = constructions s"
    using d by (simp add: constructions_def forward_fields)
  then have "mounts hs = 0 \<longrightarrow>
        constructions (run L p hs (snd (destroy L s))) = constructions s"
    by (simp add: run_constructions_unmounted)
  with held answer kept show ?thesis by blast
qed

theorem after_destroy_witness:
  "cropper mounted_example =
     Some \<lparr>element = 7, options = mount_options example_props, internal = []\<rparr> \<and>
   map_option internal (cropper (snd (destroy spy mounted_example))) = Some [Cropper_destroy] \<and>
   fst (exposed spy Call_getCropBoxData (snd (destroy spy mounted_example))) =
     Inr (spy_reply Cropper_getCropBoxData)"
proof -
  have m: "cropper mounted_example =
     Some \<lparr>element = 7, options = mount_options example_props, internal = []\<rparr>"
    by (rule mounted_example_fields)
  from after_destroy [OF m, of spy Call_getCropBoxData example_props "[]"]
  show ?thesis using m by (simp add: spy_def)
qed

section \<open>The callbacks and the emitted events\<close>

text \<open>
  Claim C3. The options of the constructor call hold callbacks under exactly the keys
  \<open>ready\<close>, \<open>cropstart\<close>, \<open>cropmove\<close>, \<open>cropend\<close>, \<open>crop\<close> and \<open>zoom\<close>, and the mounted
  hook, when the image ref is set, calls the constructor with the element and exactly
  these options: the instance it holds afterwards is the one the library's constructor
  made of them. In every state a run reaches with an instance, one firing of such a
  callback, whatever the library's event, hands the host exactly one event, the
  corresponding one (\<open>ready\<close>, \<open>start\<close>, \<open>move\<close>, \<open>end\<close>, \<open>crop\<close>, \<open>zoom\<close>), which carries
  no payload, and changes nothing else; a firing under any other key does nothing.
\<close>

theorem reemission:
  "callback_keys (mount_options p) =
     [ready_key, cropstart_key, cropmove_key, cropend_key, crop_key, zoom_key] \<and>
   (imageRef s = Some el \<longrightarrow>
      cropper (onMounted L p s) =
        Some \<lparr>element = el, options = mount_options p,
              internal = create L el (mount_options p)\<rparr> \<and>
      trace (onMounted L p s) = trace s @ [Constructed el]) \<and>
   (cropper (run L p hs initial) \<noteq> None \<longrightarrow>
      (let t = run L p hs initial in
         fire ready_key ev t = t\<lparr>emitted := emitted t @ [Emit_ready]\<rparr> \<and>
         fire cropstart_key ev t = t\<lparr>emitted := emitted t @ [Emit_start]\<rparr> \<and>
         fire cropmove_key ev t = t\<lparr>emitted := emitted t @ [Emit_move]\<rparr> \<and>
         fire cropend_key ev t = t\<lparr>emitted := emitted t @ [Emit_end]\<rparr> \<and>
         fire crop_key ev t = t\<lparr>emitted := emitted t @ [Emit_crop]\<rparr> \<and>
         fire zoom_key ev t = t\<lparr>emitted := emitted t @ [Emit_zoom]\<rparr> \<and>
         (k \<notin> set (callback_keys (mount_options p)) \<longrightarrow> fire k ev t = t)))"
proof (intro conjI impI)
  show "callback_keys (mount_options p) =
     [ready_key, cropstart_key, cropmove_key, cropend_key, crop_key, zoom_key]"
    by (rule callback_keys_mount)
next
  assume "imageRef s = Some el"
  then show "cropper (onMounted L p s) =
        Some \<lparr>element = el, options = mount_options p,
              internal = create L el (mount_options p)\<rparr>"
    by (simp add: onMounted_def)
next
  assume "imageRef s = Some el"
  then show "trace (onMounted L p s) = trace s @ [Constructed el]"
    by (simp add: onMounted_def)
next
  assume "cropper (run L p hs initial) \<noteq> None"
  then obtain i where i: "cropper (run L p hs initial) = Some i" by blast
  have "subscribed p (run L p hs initial)"
    by (rule subscribed_run) (rule subscribed_initial)
  with i have o: "options i = mount_options p" by (simp add: subscribed_def)
  show "let t = run L p hs initial in
         fire ready_key ev t = t\<lparr>emitted := emitted t @ [Emit_ready]\<rparr> \<and>
         fire cropstart_key ev t = t\<lparr>emitted := emitted t @ [Emit_start]\<rparr> \<and>
         fire cropmove_key ev t = t\<lparr>emitted := emitted t @ [Emit_move]\<rparr> \<and>
         fire cropend_key ev t = t\<lparr>emitted := emitted t @ [Emit_end]\<rparr> \<and>
         fire crop_key ev t = t\<lparr>emitted := emitted t @ [Emit_crop]\<rparr> \<and>
         fire zoom_key ev t = t\<lparr>emitted := emitted t @ [Emit_zoom]\<rparr> \<and>
         (k \<notin> set (callback_keys (mount_options p)) \<longrightarrow> fire k ev t = t)"
    unfolding Let_def
    using fire_subscribed [OF i o] fire_other [OF i o] by blast
qed

theorem reemission_witness:
  "imageRef (step spy example_props (Rendered 7) initial) = Some 7 \<and>
   cropper mounted_example =
     Some \<lparr>element = 7, options = mount_options example_props,
           internal = create spy 7 (mount_options example_props)\<rparr> \<and>
   emitted (fire cropmove_key () mounted_example) = [Emit_move]"
proof -
  have r: "imageRef (step spy example_props (Rendered 7) initial) = Some 7" by simp
  have live: "cropper mounted_example \<noteq> None"
    by (simp add: mounted_example_fields)
  note c3 = reemission [of example_props "step spy example_props (Rendered 7) initial" 7 spy
      "[Rendered 7, Mounted]" "()" zoom_key, unfolded Let_def, folded mounted_example_def]
  from c3 r
  have "cropper (onMounted spy example_props (step spy example_props (Rendered 7) initial)) =
     Some \<lparr>element = 7, options = mount_options example_props,
           internal = create spy 7 (mount_options example_props)\<rparr>"
    by blast
  then have made: "cropper mounted_example =
     Some \<lparr>element = 7, options = mount_options example_props,
           internal = create spy 7 (mount_options example_props)\<rparr>"
    by (simp add: mounted_example_def)
  from c3 live
  have "fire cropmove_key () mounted_example =
          mounted_example\<lparr>emitted := emitted mounted_example @ [Emit_move]\<rparr>"
    by blast
  then have "emitted (fire cropmove_key () mounted_example) = [Emit_move]"
    by (simp add: mounted_example_fields)
  with r made show ?thesis by blast
qed

section \<open>Forwarding to a live instance\<close>

text \<open>
  Against claim C4 as stated: on the mounted example, \<open>moveTo(5)\<close> is not the direct
  pass-through \<open>moveTo(5)\<close> on the instance: the instance receives \<open>moveTo(5, 5)\<close>. Nor
  is \<open>move(3)\<close>: the instance receives the two arguments \<open>move(3, undefined)\<close>.
\<close>

theorem pass_through_counterexample:
  "cropper mounted_example =
     Some \<lparr>element = 7, options = mount_options example_props, internal = []\<rparr> \<and>
   exposed spy (Call_moveTo 5 Omitted) mounted_example \<noteq>
     forward spy (direct_pass_through (Call_moveTo 5 Omitted))
       \<lparr>element = 7, options = mount_options example_props, internal = []\<rparr> mounted_example \<and>
   exposed spy (Call_move 3 Omitted) mounted_example \<noteq>
     forward spy (direct_pass_through (Call_move 3 Omitted))
       \<lparr>element = 7, options = mount_options example_props, internal = []\<rparr> mounted_example"
proof -
  let ?i = "\<lparr>element = 7, options = mount_options example_props, internal = []\<rparr>
              :: (int, unit, int CropperCall list) CropperJs"
  have "trace (snd (exposed spy (Call_moveTo 5 Omitted) mounted_example)) \<noteq>
        trace (snd (forward spy (direct_pass_through (Call_moveTo 5 Omitted)) ?i mounted_example))"
    by (simp add: moveTo_def optional_chain_def mounted_example_fields forward_fields
        default_to_def)
  then have a: "exposed spy (Call_moveTo 5 Omitted) mounted_example \<noteq>
     forward spy (direct_pass_through (Call_moveTo 5 Omitted)) ?i mounted_example"
    by metis
  have "trace (snd (exposed spy (Call_move 3 Omitted) mounted_example)) \<noteq>
        trace (snd (forward spy (direct_pass_through (Call_move 3 Omitted)) ?i mounted_example))"
    by (simp add: move_def non_null_def mounted_example_fields forward_fields)
  then have b: "exposed spy (Call_move 3 Omitted) mounted_example \<noteq>
     forward spy (direct_pass_through (Call_move 3 Omitted)) ?i mounted_example"
    by metis
  from a b show ?thesis by (simp add: mounted_example_fields)
qed

text \<open>
  Claim C4, amended. When the component holds an instance, a call through any key of the
  exposed object is one call on that instance, with the argument list the script writes:
  the host's arguments in their order, and every parameter of the underlying method
  written, so the forwarded call has as many arguments as the method has parameters. An
  optional argument the host omitted or passed as \<open>undefined\<close> is written as
  \<open>undefined\<close> by \<open>move\<close> and \<open>zoomTo\<close>, and as the script's default by \<open>replace\<close>,
  \<open>moveTo\<close>, \<open>scale\<close>, \<open>getData\<close>, \<open>getCroppedCanvas\<close>; a value the host passed is written
  as it is. The host gets what the instance returns, unchanged, and a fault the instance
  raises; the trace grows by that one call. For the twenty keys of the methods without an
  optional parameter the call is the direct pass-through itself. The underlying method has
  the name of the key, except that \<open>initCrop\<close> goes to \<open>crop\<close>.
\<close>

theorem pass_through:
  assumes "cropper s = Some i"
  shows
    "exposed L c s = forward L (full_arguments (direct_pass_through c)) i s \<and>
     fst (exposed L c s) =
       (case fst (perform L (full_arguments (direct_pass_through c)) (internal i)) of
          Inl x \<Rightarrow> Inl (LibraryFault x)
        | Inr v \<Rightarrow> Inr v) \<and>
     trace (snd (exposed L c s)) =
       trace s @ [Invoked (full_arguments (direct_pass_through c))] \<and>
     arity (full_arguments (direct_pass_through c)) = parameters (direct_pass_through c) \<and>
     (key_of c \<notin> {''replace'', ''move'', ''moveTo'', ''zoomTo'', ''scale'', ''getData'',
                    ''getCroppedCanvas''} \<longrightarrow>
        full_arguments (direct_pass_through c) = direct_pass_through c) \<and>
     (c = Call_initCrop \<or> method_name (full_arguments (direct_pass_through c)) = key_of c) \<and>
     exposed L (Call_move x Omitted) s = forward L (Cropper_move x (Passed None)) i s \<and>
     exposed L (Call_zoomTo x Omitted) s = forward L (Cropper_zoomTo x (Passed None)) i s \<and>
     exposed L (Call_replace u Omitted) s =
       forward L (Cropper_replace u (Passed (Some False))) i s \<and>
     exposed L (Call_moveTo x Omitted) s = forward L (Cropper_moveTo x (Passed (Some x))) i s \<and>
     exposed L (Call_scale x Omitted) s = forward L (Cropper_scale x (Passed (Some x))) i s \<and>
     exposed L (Call_getData Omitted) s = forward L (Cropper_getData (Passed (Some False))) i s \<and>
     exposed L (Call_getCroppedCanvas Omitted) s =
       forward L (Cropper_getCroppedCanvas (Passed (Some empty_options))) i s \<and>
     exposed L (Call_move x (Passed (Some y))) s =
       forward L (direct_pass_through (Call_move x (Passed (Some y)))) i s \<and>
     exposed L (Call_moveTo x (Passed (Some y))) s =
       forward L (direct_pass_through (Call_moveTo x (Passed (Some y)))) i s"
proof -
  have e: "exposed L c' s = forward L (full_arguments (direct_pass_through c')) i s" for c'
    using assms by (cases c') (simp_all add: method_defs optional_chain_live non_null_live)
  have full: "arity (full_arguments (direct_pass_through c)) = parameters (direct_pass_through c)"
    by (cases c) simp_all
  have same: "key_of c \<notin> {''replace'', ''move'', ''moveTo'', ''zoomTo'', ''scale'', ''getData'',
                    ''getCroppedCanvas''} \<longrightarrow>
        full_arguments (direct_pass_through c) = direct_pass_through c"
    by (cases c) simp_all
  have name: "c = Call_initCrop \<or> method_name (full_arguments (direct_pass_through c)) = key_of c"
    by (cases c) simp_all
  have main: "exposed L c s = forward L (full_arguments (direct_pass_through c)) i s \<and>
     fst (exposed L c s) =
       (case fst (perform L (full_arguments (direct_pass_through c)) (internal i)) of
          Inl x \<Rightarrow> Inl (LibraryFault x)
        | Inr v \<Rightarrow> Inr v) \<and>
     trace (snd (exposed L c s)) =
       trace s @ [Invoked (full_arguments (direct_pass_through c))]"
    by (simp add: e forward_result forward_fields)
  have written: "exposed L (Call_move x Omitted) s = forward L (Cropper_move x (Passed None)) i s \<and>
     exposed L (Call_zoomTo x Omitted) s = forward L (Cropper_zoomTo x (Passed None)) i s \<and>
     exposed L (Call_replace u Omitted) s =
       forward L (Cropper_replace u (Passed (Some False))) i s \<and>
     exposed L (Call_moveTo x Omitted) s = forward L (Cropper_moveTo x (Passed (Some x))) i s \<and>
     exposed L (Call_scale x Omitted) s = forward L (Cropper_scale x (Passed (Some x))) i s \<and>
     exposed L (Call_getData Omitted) s = forward L (Cropper_getData (Passed (Some False))) i s \<and>
     exposed L (Call_getCroppedCanvas Omitted) s =
       forward L (Cropper_getCroppedCanvas (Passed (Some empty_options))) i s \<and>
     exposed L (Call_move x (Passed (Some y))) s =
       forward L (direct_pass_through (Call_move x (Passed (Some y)))) i s \<and>
     exposed L (Call_moveTo x (Passed (Some y))) s =
       forward L (direct_pass_through (Call_moveTo x (Passed (Some y)))) i s"
    using assms
    by (simp add: method_defs optional_chain_live non_null_live default_to_def)
  from main full same name written show ?thesis by blast
qed

theorem pass_through_witness:
  "cropper mounted_example =
     Some \<lparr>element = 7, options = mount_options example_props, internal = []\<rparr> \<and>
   fst (exposed spy (Call_getData Omitted) mounted_example) =
     Inr (spy_reply (Cropper_getData (Passed (Some False)))) \<and>
   trace (snd (exposed spy (Call_scale 2 Omitted) mounted_example)) =
     [Constructed 7, Invoked (Cropper_scale 2 (Passed (Some 2)))] \<and>
   trace (snd (exposed spy (Call_move 3 Omitted) mounted_example)) =
     [Constructed 7, Invoked (Cropper_move 3 (Passed None))]"
proof -
  have m: "cropper mounted_example =
     Some \<lparr>element = 7, options = mount_options example_props, internal = []\<rparr>"
    by (rule mounted_example_fields)
  note g = pass_through [OF m, of spy "Call_getData Omitted", THEN conjunct2, THEN conjunct1]
  have a: "fst (exposed spy (Call_getData Omitted) mounted_example) =
     Inr (spy_reply (Cropper_getData (Passed (Some False))))"
    unfolding g by (simp add: spy_def default_to_def)
  note k = pass_through [OF m, of spy "Call_scale 2 Omitted",
      THEN conjunct2, THEN conjunct2, THEN conjunct1]
  have b: "trace (snd (exposed spy (Call_scale 2 Omitted) mounted_example)) =
     [Constructed 7, Invoked (Cropper_scale 2 (Passed (Some 2)))]"
    unfolding k by (simp add: mounted_example_fields default_to_def)
  note l = pass_through [OF m, of spy "Call_move 3 Omitted",
      THEN conjunct2, THEN conjunct2, THEN conjunct1]
  have c: "trace (snd (exposed spy (Call_move 3 Omitted) mounted_example)) =
     [Constructed 7, Invoked (Cropper_move 3 (Passed None))]"
    unfolding l by (simp add: mounted_example_fields)
  from m a b c show ?thesis by blast
qed

section \<open>The options of the constructor call\<close>

text \<open>
  Against claim C5 as stated: the options of the constructor call hold six callbacks,
  not five.
\<close>

theorem constructor_options_counterexample:
  "length (callback_keys (mount_options example_props :: (int, unit) Options)) \<noteq> 5"
  by (simp add: callback_keys_mount)

text \<open>
  Claim C5, amended. The options object of the constructor call has exactly the keys
  \<open>aspectRatio\<close>, \<open>ready\<close>, \<open>cropstart\<close>, \<open>cropmove\<close>, \<open>cropend\<close>, \<open>crop\<close>, \<open>zoom\<close>, in
  this order: the prop \<open>aspectRatio\<close> as it is, and six callbacks, which are all its other
  keys. When the image ref is set, the mounted hook constructs the instance on that
  element with these options.
\<close>

theorem constructor_options:
  "map fst (mount_options p) =
     [aspectRatio_key, ready_key, cropstart_key, cropmove_key, cropend_key, crop_key, zoom_key] \<and>
   map_of (mount_options p) aspectRatio_key = Some (NumberValue (aspectRatio p)) \<and>
   length (callback_keys (mount_options p)) = 6 \<and>
   set (callback_keys (mount_options p)) = set (map fst (mount_options p)) - {aspectRatio_key} \<and>
   (imageRef s = Some el \<longrightarrow>
      cropper (onMounted L p s) =
        Some \<lparr>element = el, options = mount_options p,
              internal = create L el (mount_options p)\<rparr>)"
  by (auto simp: mount_options_def callback_keys_def onMounted_def)

theorem constructor_options_witness:
  "imageRef (step spy example_props (Rendered 7) initial) = Some 7 \<and>
   map_option (map fst \<circ> options) (cropper (run spy example_props [Rendered 7, Mounted] initial)) =
     Some [aspectRatio_key, ready_key, cropstart_key, cropmove_key, cropend_key, crop_key, zoom_key]"
proof -
  have r: "imageRef (step spy example_props (Rendered 7) initial) = Some 7" by simp
  from constructor_options [of example_props "step spy example_props (Rendered 7) initial" 7 spy]
  have "imageRef (step spy example_props (Rendered 7) initial) = Some 7 \<longrightarrow>
        cropper (onMounted spy example_props (step spy example_props (Rendered 7) initial)) =
          Some \<lparr>element = 7, options = mount_options example_props,
                internal = create spy 7 (mount_options example_props)\<rparr>"
    by blast
  with r show ?thesis by (simp add: mount_options_def)
qed

section \<open>The exposed keys\<close>

text \<open>
  Against claim C6 as stated: the forwarding set of the specification has \<open>crop\<close>, which
  is not exposed; \<open>setData\<close> and \<open>initCrop\<close> are exposed and are not in the set.
\<close>

theorem exposed_keys_counterexample:
  "''crop'' \<in> set spec_forwarding_set \<and> ''crop'' \<notin> set exposed_keys \<and>
   ''setData'' \<in> set exposed_keys \<and> ''setData'' \<notin> set spec_forwarding_set \<and>
   ''initCrop'' \<in> set exposed_keys \<and> ''initCrop'' \<notin> set spec_forwarding_set"
  by (simp add: spec_forwarding_set_def exposed_keys_def)

text \<open>
  Claim C6, amended. The exposed object has 27 distinct keys: those of the
  specification's forwarding set without \<open>crop\<close>, in the order of \<open>defineExpose\<close>, and the
  two keys \<open>initCrop\<close> and \<open>setData\<close>. Every call of the host goes through one of them.
  The function bound to a key calls the underlying method of the key's name, and no
  other: on a component with an instance, a call through the key invokes exactly that
  method on the instance; only the function under \<open>initCrop\<close> invokes \<open>crop\<close>. Without an
  instance the function bound to a key invokes nothing.
\<close>

theorem exposed_keys_amended:
  "filter (\<lambda>k. k \<notin> set spec_forwarding_set) exposed_keys = [''initCrop'', ''setData''] \<and>
   filter (\<lambda>k. k \<notin> set exposed_keys) spec_forwarding_set = [''crop''] \<and>
   distinct exposed_keys \<and> length exposed_keys = 27 \<and>
   key_of c \<in> set exposed_keys \<and>
   (cropper s \<noteq> None \<longrightarrow>
      invoked_names (trace (snd (exposed L c s))) =
        invoked_names (trace s) @ [if c = Call_initCrop then ''crop'' else key_of c]) \<and>
   (cropper s = None \<longrightarrow> trace (snd (exposed L c s)) = trace s)"
proof (intro conjI impI)
  show "filter (\<lambda>k. k \<notin> set spec_forwarding_set) exposed_keys = [''initCrop'', ''setData'']"
    by code_simp
  show "filter (\<lambda>k. k \<notin> set exposed_keys) spec_forwarding_set = [''crop'']"
    by code_simp
  show "distinct exposed_keys" by code_simp
  show "length exposed_keys = 27" by (simp add: exposed_keys_def)
  show "key_of c \<in> set exposed_keys" by (cases c) (simp_all add: exposed_keys_def)
next
  assume "cropper s \<noteq> None"
  then obtain i where i: "cropper s = Some i" by blast
  show "invoked_names (trace (snd (exposed L c s))) =
        invoked_names (trace s) @ [if c = Call_initCrop then ''crop'' else key_of c]"
    using i
    by (cases c)
      (simp_all add: method_defs optional_chain_live non_null_live forward_fields
        invoked_names_append)
next
  assume "cropper s = None"
  then show "trace (snd (exposed L c s)) = trace s"
    by (cases c) (simp_all add: method_defs optional_chain_absent non_null_absent)
qed

theorem exposed_keys_amended_witness:
  "cropper mounted_example \<noteq> None \<and>
   invoked_names (trace (snd (exposed spy Call_initCrop mounted_example))) = [''crop''] \<and>
   invoked_names (trace (snd (exposed spy (Call_setData \<lparr>sd_x = Some 1, sd_y = None,
     sd_width = None, sd_height = None, sd_rotate = None, sd_scaleX = None,
     sd_scaleY = None\<rparr>) mounted_example))) = [''setData'']"
proof -
  have live: "cropper mounted_example \<noteq> None"
    by (simp add: mounted_example_fields)
  have t: "invoked_names (trace mounted_example) = []"
    by (simp add: mounted_example_fields)
  from exposed_keys_amended [of Call_initCrop mounted_example spy] live
  have a: "invoked_names (trace (snd (exposed spy Call_initCrop mounted_example))) =
      invoked_names (trace mounted_example) @ [''crop'']"
    by simp
  from exposed_keys_amended [of "Call_setData \<lparr>sd_x = Some 1, sd_y = None,
     sd_width = None, sd_height = None, sd_rotate = None, sd_scaleX = None,
     sd_scaleY = None\<rparr>" mounted_example spy] live
  have b: "invoked_names (trace (snd (exposed spy (Call_setData \<lparr>sd_x = Some 1, sd_y = None,
     sd_width = None, sd_height = None, sd_rotate = None, sd_scaleX = None,
     sd_scaleY = None\<rparr>) mounted_example))) =
      invoked_names (trace mounted_example) @ [''setData'']"
    by simp
  from live a b t show ?thesis by simp
qed

section \<open>The life cycle\<close>

text \<open>
  Against claim C7 as stated: after \<open>destroy\<close> the example component is in the state
  mounted, holding its instance: it has not moved to the state destroyed.
\<close>

theorem lifecycle_counterexample:
  "facade_state destroyed_example = State_mounted"
  by (simp add: facade_state_def destroyed_example_fields)

text \<open>
  Claim C7, amended. The holder of the instance is filled only by the mounted hook, and
  only when the image ref is set; then the hook does fill it. Once filled it stays
  filled, whatever happens (\<open>destroy\<close> included). A step constructs an instance exactly
  when it is the mounted hook on a set image ref, so a run from the initial state in
  which the hook runs at most once constructs at most one instance. No run from the
  initial state reaches the state destroyed: the only transition of the state machine is
  from unmounted to mounted.
\<close>

theorem lifecycle:
  "(cropper s = None \<and> cropper (step L p h s) \<noteq> None \<longrightarrow> h = Mounted \<and> imageRef s \<noteq> None) \<and>
   (imageRef s \<noteq> None \<longrightarrow> cropper (step L p Mounted s) \<noteq> None) \<and>
   (cropper s \<noteq> None \<longrightarrow> cropper (run L p hs s) \<noteq> None) \<and>
   constructions (step L p h s) =
     constructions s + (if h = Mounted \<and> imageRef s \<noteq> None then 1 else 0) \<and>
   (mounts hs \<le> 1 \<longrightarrow> constructions (run L p hs initial) \<le> 1) \<and>
   facade_state (run L p hs initial) \<noteq> State_destroyed"
proof (intro conjI impI)
  assume "cropper s = None \<and> cropper (step L p h s) \<noteq> None"
  then show "h = Mounted" and "imageRef s \<noteq> None"
    using step_holder_filled [of s L p h] by blast+
next
  assume "imageRef s \<noteq> None"
  then show "cropper (step L p Mounted s) \<noteq> None" by (rule step_mounted_fills)
next
  assume "cropper s \<noteq> None"
  then show "cropper (run L p hs s) \<noteq> None" by (rule run_holder_kept)
next
  show "constructions (step L p h s) =
     constructions s + (if h = Mounted \<and> imageRef s \<noteq> None then 1 else 0)"
    by (rule step_constructions)
next
  assume m: "mounts hs \<le> 1"
  from run_constructions [of L p hs initial]
  show "constructions (run L p hs initial) \<le> 1"
    using m by (simp add: constructions_initial)
next
  from held_run [of initial L p hs]
  have "constructions (run L p hs initial) = 0 \<or> cropper (run L p hs initial) \<noteq> None"
    by (simp add: constructions_initial)
  then show "facade_state (run L p hs initial) \<noteq> State_destroyed"
    by (auto simp: facade_state_def split: option.splits)
qed

theorem lifecycle_witness:
  "mounts [Rendered 7, Mounted, Called Call_destroy :: (int, unit) Happening] \<le> 1 \<and>
   constructions destroyed_example \<le> 1 \<and>
   cropper mounted_example \<noteq> None \<and>
   cropper (run spy example_props [Called Call_destroy] mounted_example) \<noteq> None"
proof -
  have m: "mounts [Rendered 7, Mounted, Called Call_destroy :: (int, unit) Happening] \<le> 1"
    by (simp add: mounts_def)
  have c: "cropper mounted_example \<noteq> None"
    by (simp add: mounted_example_fields)
  from lifecycle [of mounted_example spy example_props Mounted "[Called Call_destroy]"]
  have 1: "cropper (run spy example_props [Called Call_destroy] mounted_example) \<noteq> None"
    using c by blast
  from lifecycle [of initial spy example_props Mounted
      "[Rendered 7, Mounted, Called Call_destroy]", folded destroyed_example_def]
  have 2: "constructions destroyed_example \<le> 1"
    using m by blast
  from m c 1 2 show ?thesis by blast
qed

section \<open>Calling \<open>destroy\<close> twice\<close>

text \<open>
  Against claim C8 as stated: after the first \<open>destroy\<close> the example component is not in
  the state destroyed, and the second \<open>destroy\<close> is not without effect: it reaches the
  instance again, as the trace shows.
\<close>

theorem destroy_twice_counterexample:
  "facade_state (snd (destroy spy mounted_example)) \<noteq> State_destroyed \<and>
   trace (snd (destroy spy (snd (destroy spy mounted_example)))) =
     [Constructed 7, Invoked Cropper_destroy, Invoked Cropper_destroy] \<and>
   trace (snd (destroy spy (snd (destroy spy mounted_example)))) \<noteq>
     trace (snd (destroy spy mounted_example))"
  by (simp add: facade_state_def mounted_example_fields destroy_def optional_chain_def
      forward_def spy_def)

text \<open>
  Claim C8, amended. Neither of two calls of \<open>destroy\<close> in a row raises \<open>TypeError\<close>.
  Without an instance both return \<open>undefined\<close> and change nothing. With an instance, the
  component holds it after the first call and after the second; both calls are forwarded
  to it, the second in the state the first left, so what the second call does is what
  the library's \<open>destroy\<close> does on a destroyed instance. The image ref and the events
  handed to the host are unchanged.
\<close>

theorem destroy_twice:
  "fst (destroy L s) \<noteq> Inl TypeError \<and>
   fst (destroy L (snd (destroy L s))) \<noteq> Inl TypeError \<and>
   (cropper s = None \<longrightarrow>
      destroy L s = (Inr None, s) \<and> destroy L (snd (destroy L s)) = (Inr None, s)) \<and>
   (cropper s = Some i \<longrightarrow>
      cropper (snd (destroy L s)) =
        Some (i\<lparr>internal := snd (perform L Cropper_destroy (internal i))\<rparr>) \<and>
      cropper (snd (destroy L (snd (destroy L s)))) =
        Some (i\<lparr>internal := snd (perform L Cropper_destroy
                                (snd (perform L Cropper_destroy (internal i))))\<rparr>) \<and>
      imageRef (snd (destroy L (snd (destroy L s)))) = imageRef s \<and>
      emitted (snd (destroy L (snd (destroy L s)))) = emitted s \<and>
      trace (snd (destroy L (snd (destroy L s)))) =
        trace s @ [Invoked Cropper_destroy, Invoked Cropper_destroy])"
proof -
  have never: "fst (destroy L t) \<noteq> Inl TypeError" for t
    by (cases "cropper t")
      (simp_all add: destroy_def optional_chain_absent optional_chain_live forward_not_TypeError)
  have absent: "cropper s = None \<longrightarrow>
      destroy L s = (Inr None, s) \<and> destroy L (snd (destroy L s)) = (Inr None, s)"
    by (simp add: destroy_def optional_chain_absent)
  have live: "cropper s = Some i \<longrightarrow>
      cropper (snd (destroy L s)) =
        Some (i\<lparr>internal := snd (perform L Cropper_destroy (internal i))\<rparr>) \<and>
      cropper (snd (destroy L (snd (destroy L s)))) =
        Some (i\<lparr>internal := snd (perform L Cropper_destroy
                                (snd (perform L Cropper_destroy (internal i))))\<rparr>) \<and>
      imageRef (snd (destroy L (snd (destroy L s)))) = imageRef s \<and>
      emitted (snd (destroy L (snd (destroy L s)))) = emitted s \<and>
      trace (snd (destroy L (snd (destroy L s)))) =
        trace s @ [Invoked Cropper_destroy, Invoked Cropper_destroy]"
  proof
    assume s: "cropper s = Some i"
    let ?i = "i\<lparr>internal := snd (perform L Cropper_destroy (internal i))\<rparr>"
    from s have d1: "destroy L s = forward L Cropper_destroy i s"
      by (simp add: destroy_def optional_chain_live)
    then have h1: "cropper (snd (destroy L s)) = Some ?i"
      by (simp add: forward_fields)
    then have d2: "destroy L (snd (destroy L s)) =
        forward L Cropper_destroy ?i (snd (destroy L s))"
      by (simp add: destroy_def optional_chain_live)
    show "cropper (snd (destroy L s)) =
        Some (i\<lparr>internal := snd (perform L Cropper_destroy (internal i))\<rparr>) \<and>
      cropper (snd (destroy L (snd (destroy L s)))) =
        Some (i\<lparr>internal := snd (perform L Cropper_destroy
                                (snd (perform L Cropper_destroy (internal i))))\<rparr>) \<and>
      imageRef (snd (destroy L (snd (destroy L s)))) = imageRef s \<and>
      emitted (snd (destroy L (snd (destroy L s)))) = emitted s \<and>
      trace (snd (destroy L (snd (destroy L s)))) =
        trace s @ [Invoked Cropper_destroy, Invoked Cropper_destroy]"
      using h1 by (simp add: d2 forward_fields) (simp add: d1 forward_fields)
  qed
  from never [of s] never [of "snd (destroy L s)"] absent live show ?thesis by blast
qed

theorem destroy_twice_witness:
  "cropper mounted_example =
     Some \<lparr>element = 7, options = mount_options example_props, internal = []\<rparr> \<and>
   fst (destroy spy mounted_example) \<noteq> Inl TypeError \<and>
   fst (destroy spy (snd (destroy spy mounted_example))) \<noteq> Inl TypeError \<and>
   map_option element (cropper (snd (destroy spy (snd (destroy spy mounted_example))))) = Some 7"
proof -
  have m: "cropper mounted_example =
     Some \<lparr>element = 7, options = mount_options example_props, internal = []\<rparr>"
    by (rule mounted_example_fields)
  from destroy_twice [of spy mounted_example
      "\<lparr>element = 7, options = mount_options example_props, internal = []\<rparr>"]
  show ?thesis using m by simp
qed

section \<open>The rendered elements\<close>

text \<open>
  Against claim C9 as stated: the style binding of the example's image is not its prop
  \<open>imgStyle\<close>: it has \<open>max-width\<close>, which the prop does not set; and on a page the image
  gets a maximal width that the prop alone would not give it.
\<close>

theorem render_counterexample:
  "Img_style (hd (Div_children (render as_bound example_props))) \<noteq> imgStyle example_props \<and>
   Img_style (hd (Div_children (render page example_props))) ''maxWidth'' =
     Some (CSS_string ''100%'') \<and>
   element_style page (imgStyle example_props) ''maxWidth'' = None"
  by (simp add: render_def as_bound_def page_def example_props_def upper_def)

text \<open>
  Claim C9, amended. The template renders one \<open>div\<close> around one \<open>img\<close>. The style of the
  \<open>div\<close> is what the framework makes, on the root element, of the prop \<open>containerStyle\<close>
  as it is. The image's \<open>crossorigin\<close> is bound to the prop as it is; its \<open>src\<close> and \<open>alt\<close>
  to the props when given, and to the empty string and \<open>image\<close> when not. The style of
  the image is what the framework makes of the object \<open>{ 'max-width': '100%', ...imgStyle }\<close>.
  For an \<open>imgStyle\<close> without a repeated key that object has the key \<open>max-width\<close> first and
  then the other keys of \<open>imgStyle\<close> in their order, as the host wrote them; under each key
  of \<open>imgStyle\<close> it has the value of \<open>imgStyle\<close>, \<open>undefined\<close> included, and under
  \<open>max-width\<close> it has \<open>100%\<close> when \<open>imgStyle\<close> has no key \<open>max-width\<close>. The component
  validates none of the props.
\<close>

theorem render_amended:
  "Div_style (render F p) = root_style F (containerStyle p) \<and>
   length (Div_children (render F p)) = 1 \<and>
   Img_src (hd (Div_children (render F p))) = (case src p of None \<Rightarrow> [] | Some u \<Rightarrow> u) \<and>
   Img_alt (hd (Div_children (render F p))) =
     (case alt p of None \<Rightarrow> ''image'' | Some a \<Rightarrow> a) \<and>
   Img_crossorigin (hd (Div_children (render F p))) = crossorigin p \<and>
   Img_style (hd (Div_children (render F p))) =
     element_style F (spread [(''max-width'', Some (CSS_string ''100%''))] (imgStyle p)) \<and>
   (distinct (map fst (imgStyle p)) \<longrightarrow>
      map fst (spread [(''max-width'', Some (CSS_string ''100%''))] (imgStyle p)) =
        ''max-width'' # filter (\<lambda>k. k \<noteq> ''max-width'') (map fst (imgStyle p)) \<and>
      map_of (spread [(''max-width'', Some (CSS_string ''100%''))] (imgStyle p)) k =
        (case map_of (imgStyle p) k of
           Some v \<Rightarrow> Some v
         | None \<Rightarrow> if k = ''max-width'' then Some (Some (CSS_string ''100%'')) else None))"
proof -
  have bound: "Div_style (render F p) = root_style F (containerStyle p) \<and>
   length (Div_children (render F p)) = 1 \<and>
   Img_src (hd (Div_children (render F p))) = (case src p of None \<Rightarrow> [] | Some u \<Rightarrow> u) \<and>
   Img_alt (hd (Div_children (render F p))) =
     (case alt p of None \<Rightarrow> ''image'' | Some a \<Rightarrow> a) \<and>
   Img_crossorigin (hd (Div_children (render F p))) = crossorigin p \<and>
   Img_style (hd (Div_children (render F p))) =
     element_style F (spread [(''max-width'', Some (CSS_string ''100%''))] (imgStyle p))"
    by (simp add: render_def default_to_def split: option.splits)
  have object: "distinct (map fst (imgStyle p)) \<longrightarrow>
      map fst (spread [(''max-width'', Some (CSS_string ''100%''))] (imgStyle p)) =
        ''max-width'' # filter (\<lambda>k. k \<noteq> ''max-width'') (map fst (imgStyle p)) \<and>
      map_of (spread [(''max-width'', Some (CSS_string ''100%''))] (imgStyle p)) k =
        (case map_of (imgStyle p) k of
           Some v \<Rightarrow> Some v
         | None \<Rightarrow> if k = ''max-width'' then Some (Some (CSS_string ''100%'')) else None)"
  proof
    assume d: "distinct (map fst (imgStyle p))"
    have keys: "map fst (spread [(''max-width'', Some (CSS_string ''100%''))] (imgStyle p)) =
        ''max-width'' # filter (\<lambda>k. k \<noteq> ''max-width'') (map fst (imgStyle p))"
      by (simp add: keys_spread [OF d])
    have vals: "map_of (spread [(''max-width'', Some (CSS_string ''100%''))] (imgStyle p)) k =
        (case map_of (imgStyle p) k of
           Some v \<Rightarrow> Some v
         | None \<Rightarrow> if k = ''max-width'' then Some (Some (CSS_string ''100%'')) else None)"
      by (simp add: map_of_spread [OF d] map_add_def split: option.splits)
    from keys vals
    show "map fst (spread [(''max-width'', Some (CSS_string ''100%''))] (imgStyle p)) =
        ''max-width'' # filter (\<lambda>k. k \<noteq> ''max-width'') (map fst (imgStyle p)) \<and>
      map_of (spread [(''max-width'', Some (CSS_string ''100%''))] (imgStyle p)) k =
        (case map_of (imgStyle p) k of
           Some v \<Rightarrow> Some v
         | None \<Rightarrow> if k = ''max-width'' then Some (Some (CSS_string ''100%'')) else None)"
      by (rule conjI)
  qed
  from bound object show ?thesis by blast
qed

theorem render_amended_witness:
  "distinct (map fst (imgStyle camel_props)) \<and>
   map fst (spread [(''max-width'', Some (CSS_string ''100%''))] (imgStyle camel_props)) =
     [''max-width'', ''maxWidth''] \<and>
   Img_style (hd (Div_children (render page camel_props))) ''maxWidth'' =
     Some (CSS_string ''50%'')"
proof -
  have d: "distinct (map fst (imgStyle camel_props))"
    by (simp add: camel_props_def)
  note c9 = render_amended [of page camel_props "''max-width''"]
  from c9 d
  have keys: "map fst (spread [(''max-width'', Some (CSS_string ''100%''))] (imgStyle camel_props)) =
        ''max-width'' # filter (\<lambda>k. k \<noteq> ''max-width'') (map fst (imgStyle camel_props))"
    by blast
  from c9
  have "Img_style (hd (Div_children (render page camel_props))) =
     element_style page
       (spread [(''max-width'', Some (CSS_string ''100%''))] (imgStyle camel_props))"
    by blast
  then have style: "Img_style (hd (Div_children (render page camel_props))) ''maxWidth'' =
     Some (CSS_string ''50%'')"
    by (simp add: page_def camel_props_def upper_def)
  from keys have "map fst (spread [(''max-width'', Some (CSS_string ''100%''))]
      (imgStyle camel_props)) = [''max-width'', ''maxWidth'']"
    by (simp add: camel_props_def)
  with d style show ?thesis by blast
qed

section \<open>The event \<open>result\<close>\<close>

text \<open>
  Claim C10. Whatever the library, the props and the run (renderings, mounted hooks, calls
  of the host, firings of callbacks), every event handed to the host is one of \<open>ready\<close>,
  \<open>start\<close>, \<open>move\<close>, \<open>end\<close>, \<open>crop\<close>, \<open>zoom\<close>: the declared event \<open>result\<close> is never
  emitted, with any payload.
\<close>

theorem result_never_emitted:
  "set (emitted (run L p hs initial)) \<subseteq> set presence_only \<and>
   Emit_result v \<notin> set (emitted (run L p hs initial))"
proof -
  have "set (emitted (run L p hs initial)) \<subseteq> set presence_only"
  proof (rule emitted_run)
    show "subscribed p initial" by (rule subscribed_initial)
    show "set (emitted initial) \<subseteq> set presence_only" by (simp add: initial_def)
  qed
  moreover have "Emit_result v \<notin> set presence_only"
    by (simp add: presence_only_def)
  ultimately show ?thesis by blast
qed

theorem result_never_emitted_witness:
  "Emit_result ''data'' \<notin>
     set (emitted (run spy example_props
       [Rendered 7, Mounted, Fired crop_key (), Called (Call_zoom 2), Fired zoom_key ()] initial))"
  using result_never_emitted [of spy example_props
      "[Rendered 7, Mounted, Fired crop_key (), Called (Call_zoom 2), Fired zoom_key ()]" "''data''"]
  by blast

end
